theory Spec2Isabelle
  imports Main
begin

section \<open>Text helpers of the Python runtime\<close>

text \<open>
  Response texts are Python \<open>str\<close> values, modelled as \<open>string\<close>: a list of
  characters whose code points lie below 256. \<open>str.count\<close> with a one-character
  argument counts the occurrences of that character.
\<close>

definition count_char :: "string \<Rightarrow> char \<Rightarrow> int" where
  "count_char s c = int (count_list s c)"

text \<open>
  The running difference between opening and closing braces, and between opening and
  closing brackets, of a text: what the scanning loops of \<open>ai_processor.py\<close> hold in
  \<open>brace_count\<close> and \<open>bracket_count\<close> once they have read the whole text.
\<close>

definition brace_depth :: "string \<Rightarrow> int" where
  "brace_depth s = count_char s (CHR ''{'') - count_char s (CHR ''}'')"

definition bracket_depth :: "string \<Rightarrow> int" where
  "bracket_depth s = count_char s (CHR ''['') - count_char s (CHR '']'')"

definition balanced :: "string \<Rightarrow> bool" where
  "balanced s = (brace_depth s = 0 \<and> bracket_depth s = 0)"

section \<open>The depth-tracking scan\<close>

text \<open>
  The loop body shared by \<open>_find_last_complete_structure\<close> and
  \<open>_fix_truncated_json\<close>: one character updates at most one of the two counters
  (the \<open>if\<close>/\<open>elif\<close> chain).
\<close>

definition brace_step :: "char \<Rightarrow> int \<Rightarrow> int" where
  "brace_step c brace_count =
     (if c = CHR ''{'' then brace_count + 1
      else if c = CHR ''}'' then brace_count - 1
      else brace_count)"

definition bracket_step :: "char \<Rightarrow> int \<Rightarrow> int" where
  "bracket_step c bracket_count =
     (if c = CHR ''{'' then bracket_count
      else if c = CHR ''}'' then bracket_count
      else if c = CHR ''['' then bracket_count + 1
      else if c = CHR '']'' then bracket_count - 1
      else bracket_count)"

text \<open>
  \<open>scan_structure cs i brace_count bracket_count last_complete\<close> runs the
  \<open>for i, char in enumerate(response)\<close> loop on the characters \<open>cs\<close> still to be
  read, \<open>i\<close> being the index of the first of them.
\<close>

fun scan_structure :: "string \<Rightarrow> nat \<Rightarrow> int \<Rightarrow> int \<Rightarrow> nat \<Rightarrow> nat" where
  "scan_structure [] i brace_count bracket_count last_complete = last_complete"
| "scan_structure (c # cs) i brace_count bracket_count last_complete =
     (let brace_count' = brace_step c brace_count;
          bracket_count' = bracket_step c bracket_count
      in scan_structure cs (i + 1) brace_count' bracket_count'
           (if brace_count' = 0 \<and> bracket_count' = 0 then i + 1 else last_complete))"

definition find_last_complete_structure :: "string \<Rightarrow> nat" where
  "find_last_complete_structure response = scan_structure response 0 0 0 0"

section \<open>Whitespace, \<open>strip\<close> and \<open>endswith\<close>\<close>

text \<open>
  \<open>str.isspace\<close> on the code points below 256: the ASCII controls 9 to 13 and 28 to
  31, the space, NEL (133) and the no-break space (160). \<open>str.strip()\<close> removes such
  characters from both ends.
\<close>

definition is_space :: "char \<Rightarrow> bool" where
  "is_space c =
     (let n = (of_char c :: nat)
      in (9 \<le> n \<and> n \<le> 13) \<or> (28 \<le> n \<and> n \<le> 32) \<or> n = 133 \<or> n = 160)"

definition lstrip :: "string \<Rightarrow> string" where
  "lstrip s = dropWhile is_space s"

definition rstrip :: "string \<Rightarrow> string" where
  "rstrip s = rev (dropWhile is_space (rev s))"

definition strip :: "string \<Rightarrow> string" where
  "strip s = rstrip (lstrip s)"

definition endswith :: "string \<Rightarrow> string \<Rightarrow> bool" where
  "endswith s suffix =
     (length suffix \<le> length s \<and> drop (length s - length suffix) s = suffix)"

section \<open>Closing a truncated response\<close>

text \<open>
  \<open>_fix_truncated_json\<close>: strip the response, run the depth-tracking loop (the same
  loop as \<open>_find_last_complete_structure\<close>), and either cut the response at the last
  offset where both counters were zero or, when there is none, append one closing bracket
  for each bracket still open and then one closing brace for each brace still open.
  \<open>range(n)\<close> is empty for a negative \<open>n\<close>, which \<open>nat\<close> renders.
\<close>

definition fix_truncated_json :: "string \<Rightarrow> string" where
  "fix_truncated_json truncated_response =
     (let response = strip truncated_response;
          last_complete_pos = scan_structure response 0 0 0 0
      in if last_complete_pos > 0 then take last_complete_pos response
         else
           (let open_braces = count_char response (CHR ''{'') - count_char response (CHR ''}'');
                open_brackets = count_char response (CHR ''['') - count_char response (CHR '']'')
            in response @ replicate (nat open_brackets) (CHR '']'')
                 @ replicate (nat open_braces) (CHR ''}'')))"

section \<open>Exceptions\<close>

text \<open>
  Every exception the pipeline raises or meets is a value. \<open>ApiError\<close> is the
  exception for a status other than 200 (the status and the body), \<open>TransportError\<close>
  any failure of the HTTP client itself. The two terminal ones carry
  what the source puts into their message: \<open>AllModelsFailed\<close> is the exception raised
  at the end of \<open>_process_cv_single_request\<close> (its \<open>error_details\<close>: the text of the last
  error, that error's \<open>raw_response\<close> attribute, the file name, the preview of the text
  and \<open>models_tried\<close>), \<open>AllAIModelsFailed\<close> the one raised at the end of
  \<open>process_cv_to_json\<close>, built from the primary error alone.
\<close>

datatype error =
    JSONDecodeError
  | AttributeError
  | TypeError
  | KeyError
  | ApiError nat string
  | TransportError string
  | NotJsonObject
  | FixedNotJsonObject
  | MissingSection
  | MissingField string
  | RepairsFailed string
  | NotDictionary string
  | MissingPersonalInformation
  | AllModelsFailed "error option" "string option" string string "string list"
  | AllAIModelsFailed error

section \<open>The truncation check of \<open>_call_openrouter_api\<close>\<close>

text \<open>
  What the pipeline prints is kept as a list of events, so that the order of the steps
  it takes can be stated: the two truncation warnings, a completion request posted for a
  model, a continuation asked for and its request posted, each of the three repair
  approaches when it starts, and the outcome of a model's attempt.
\<close>

datatype event =
    WarnTruncatedByLength
  | WarnNoClosingBrace
  | ApiCall string
  | ContinuationRequested
  | ContinuationCall string
  | ApproachFixCommonIssues
  | ApproachExtractValidJson
  | ApproachCompleteTruncated
  | ModelSucceeded string
  | ModelFailed string error

text \<open>
  Lines 464 to 474 of \<open>_call_openrouter_api\<close>: the response counts as truncated when
  the provider's \<open>finish_reason\<close> is \<open>length\<close>; after that (and on the text the first
  branch may already have rewritten) when the stripped text does not end with a closing
  brace. Each branch prints its warning and passes the text to \<open>_fix_truncated_json\<close>.
  The result is the warnings printed and the text handed on.
\<close>

definition truncation_check :: "string option \<Rightarrow> string \<Rightarrow> event list \<times> string" where
  "truncation_check finish_reason ai_response =
     (let (log1, response1) =
            (if finish_reason = Some ''length''
             then ([WarnTruncatedByLength], fix_truncated_json ai_response)
             else ([], ai_response));
          (log2, response2) =
            (if \<not> endswith (strip response1) ''}''
             then ([WarnNoClosingBrace], fix_truncated_json response1)
             else ([], response1))
      in (log1 @ log2, response2))"

text \<open>The check reports a truncation when it prints at least one of its two warnings.\<close>

definition reports_truncated :: "string option \<Rightarrow> string \<Rightarrow> bool" where
  "reports_truncated finish_reason ai_response =
     (fst (truncation_check finish_reason ai_response) \<noteq> [])"

section \<open>The token budget\<close>

text \<open>The values of \<open>AI_MODEL_CONFIG\<close> in \<open>config.py\<close> that the budget reads.\<close>

definition MODEL_TOKEN_LIMITS :: "string \<rightharpoonup> int" where
  "MODEL_TOKEN_LIMITS = map_of
     [(''anthropic/claude-3.5-sonnet'', 200000),
      (''openai/gpt-4o'', 128000),
      (''anthropic/claude-3-haiku'', 200000),
      (''meta-llama/llama-3.1-8b-instruct'', 8192),
      (''anthropic/claude-3-opus'', 200000),
      (''openai/gpt-4-turbo'', 128000)]"

definition MIN_MAX_TOKENS :: int where
  "MIN_MAX_TOKENS = 2000"

definition SAFETY_BUFFER_TOKENS :: int where
  "SAFETY_BUFFER_TOKENS = 1000"

text \<open>\<open>self.model_token_limits.get(model, 8192)\<close>.\<close>

definition model_limit_of :: "(string \<rightharpoonup> int) \<Rightarrow> string \<Rightarrow> int" where
  "model_limit_of model_token_limits model =
     (case model_token_limits model of Some limit \<Rightarrow> limit | None \<Rightarrow> 8192)"

text \<open>
  \<open>_calculate_max_tokens\<close>. Python's integers are unbounded and \<open>//\<close> rounds towards
  minus infinity, as \<open>div\<close> on \<open>int\<close> does.
\<close>

definition calculate_max_tokens :: "(string \<rightharpoonup> int) \<Rightarrow> string \<Rightarrow> int \<Rightarrow> int" where
  "calculate_max_tokens model_token_limits model prompt_length =
     (let model_limit = model_limit_of model_token_limits model;
          estimated_prompt_tokens = prompt_length div 4;
          base_response_tokens =
            (if prompt_length > 100000 then 30000
             else if prompt_length > 50000 then 25000
             else if prompt_length > 20000 then 20000
             else 15000);
          response_tokens =
            min base_response_tokens
              (model_limit - estimated_prompt_tokens - SAFETY_BUFFER_TOKENS);
          max_tokens =
            min response_tokens
              (model_limit - estimated_prompt_tokens - SAFETY_BUFFER_TOKENS)
      in max max_tokens MIN_MAX_TOKENS)"

section \<open>Parsed JSON values\<close>

text \<open>
  What \<open>json.loads\<close> returns: \<open>None\<close>, a \<open>bool\<close>, an \<open>int\<close>, a \<open>float\<close>, a
  \<open>str\<close>, a \<open>list\<close> or a \<open>dict\<close>. A float is kept as the decimal it was written
  as (\<open>Decimal m e\<close> stands for \<open>m\<close> times ten to the \<open>e\<close>) or as one of the three
  special values; its rounding to binary is not modelled. A dict is the list of its
  items in insertion order, with pairwise distinct keys; \<open>map_of\<close> looks a key up.
\<close>

datatype pyfloat = Decimal int int | NaN | Infinity | NegInfinity

datatype json =
    JNull
  | JBool bool
  | JInt int
  | JFloat pyfloat
  | JStr string
  | JArr "json list"
  | JObj "(string \<times> json) list"

text \<open>Truth value testing, as \<open>not x\<close> and \<open>if x\<close> apply it.\<close>

fun truthy :: "json \<Rightarrow> bool" where
  "truthy JNull = False"
| "truthy (JBool b) = b"
| "truthy (JInt n) = (n \<noteq> 0)"
| "truthy (JFloat (Decimal m e)) = (m \<noteq> 0)"
| "truthy (JFloat f) = True"
| "truthy (JStr s) = (s \<noteq> [])"
| "truthy (JArr xs) = (xs \<noteq> [])"
| "truthy (JObj items) = (items \<noteq> [])"

text \<open>\<open>type(x).__name__\<close>.\<close>

fun type_name :: "json \<Rightarrow> string" where
  "type_name JNull = ''NoneType''"
| "type_name (JBool b) = ''bool''"
| "type_name (JInt n) = ''int''"
| "type_name (JFloat f) = ''float''"
| "type_name (JStr s) = ''str''"
| "type_name (JArr xs) = ''list''"
| "type_name (JObj items) = ''dict''"

text \<open>The three types the validators test with \<open>isinstance\<close>.\<close>

datatype pytype = TDict | TStr | TList

fun isinstance :: "json \<Rightarrow> pytype \<Rightarrow> bool" where
  "isinstance (JObj items) TDict = True"
| "isinstance (JStr s) TStr = True"
| "isinstance (JArr xs) TList = True"
| "isinstance v t = False"

fun pytype_name :: "pytype \<Rightarrow> string" where
  "pytype_name TDict = ''dict''"
| "pytype_name TStr = ''str''"
| "pytype_name TList = ''list''"

text \<open>\<open>needle in haystack\<close> on two strings: the needle occurs as a substring.\<close>

fun startswith :: "string \<Rightarrow> string \<Rightarrow> bool" where
  "startswith s [] = True"
| "startswith [] (p # ps) = False"
| "startswith (c # cs) (p # ps) = (c = p \<and> startswith cs ps)"

fun contains_str :: "string \<Rightarrow> string \<Rightarrow> bool" where
  "contains_str [] needle = (needle = [])"
| "contains_str (c # cs) needle = (startswith (c # cs) needle \<or> contains_str cs needle)"

section \<open>Regular-expression substitution\<close>

text \<open>
  \<open>_fix_common_json_issues\<close> is five calls of \<open>re.sub\<close>. Each of its patterns is a
  literal first character followed by a sequence of items: a literal character, a greedy
  \<open>\s*\<close>, and one capturing group, \<open>([^"\s]+)\<close> or \<open>([^"]+)\<close>. \<open>\s\<close> in a
  \<open>str\<close> pattern is the whitespace of \<open>str.isspace\<close>.
\<close>

datatype char_class = Whitespace | NotQuoteNorSpace | NotQuote

fun in_class :: "char_class \<Rightarrow> char \<Rightarrow> bool" where
  "in_class Whitespace c = is_space c"
| "in_class NotQuoteNorSpace c = (c \<noteq> CHR 0x22 \<and> \<not> is_space c)"
| "in_class NotQuote c = (c \<noteq> CHR 0x22)"

text \<open>
  \<open>GroupPlus k\<close> is the capturing group \<open>(k+)\<close>; \<open>GroupMore k\<close> is the same group
  after its first character, so it occurs while matching only, not in a pattern.
\<close>

datatype item = Lit char | Star char_class | GroupPlus char_class | GroupMore char_class

text \<open>
  \<open>match_items items s\<close> matches the items at the start of \<open>s\<close> the way the
  backtracking matcher of \<open>re\<close> does: a greedy repetition takes a character whenever it
  can, and gives it back only when the rest of the pattern fails after it. The result is
  the text of the group and the number of characters matched.
\<close>

fun advance :: "(string \<times> nat) option \<Rightarrow> (string \<times> nat) option" where
  "advance None = None"
| "advance (Some (g, n)) = Some (g, Suc n)"

fun capture :: "char \<Rightarrow> (string \<times> nat) option \<Rightarrow> (string \<times> nat) option" where
  "capture x None = None"
| "capture x (Some (g, n)) = Some (x # g, Suc n)"

fun match_items :: "item list \<Rightarrow> string \<Rightarrow> (string \<times> nat) option" where
  "match_items [] s = Some ([], 0)"
| "match_items (Lit c # rest) [] = None"
| "match_items (Lit c # rest) (x # xs) =
     (if x = c then advance (match_items rest xs) else None)"
| "match_items (Star k # rest) [] = match_items rest []"
| "match_items (Star k # rest) (x # xs) =
     (if in_class k x
      then (case advance (match_items (Star k # rest) xs) of
              Some r \<Rightarrow> Some r
            | None \<Rightarrow> match_items rest (x # xs))
      else match_items rest (x # xs))"
| "match_items (GroupPlus k # rest) [] = None"
| "match_items (GroupPlus k # rest) (x # xs) =
     (if in_class k x then capture x (match_items (GroupMore k # rest) xs) else None)"
| "match_items (GroupMore k # rest) [] = match_items rest []"
| "match_items (GroupMore k # rest) (x # xs) =
     (if in_class k x
      then (case capture x (match_items (GroupMore k # rest) xs) of
              Some r \<Rightarrow> Some r
            | None \<Rightarrow> match_items rest (x # xs))
      else match_items rest (x # xs))"

text \<open>
  \<open>re_sub c items repl s\<close> is \<open>re.sub\<close> for the pattern \<open>c\<close> followed by
  \<open>items\<close>: the text is read from the left, every match is replaced by \<open>repl\<close> of
  its group, and reading goes on behind the match (matches do not overlap). A match has at
  least the character \<open>c\<close>, so it is never empty.
\<close>

fun re_sub :: "char \<Rightarrow> item list \<Rightarrow> (string \<Rightarrow> string) \<Rightarrow> string \<Rightarrow> string" where
  "re_sub c items repl [] = []"
| "re_sub c items repl (x # xs) =
     (if x = c
      then (case match_items items xs of
              Some (g, n) \<Rightarrow> repl g @ re_sub c items repl (drop n xs)
            | None \<Rightarrow> x # re_sub c items repl xs)
      else x # re_sub c items repl xs)"

text \<open>
  \<open>_fix_common_json_issues\<close>: the five substitutions, each applied to the result of
  the one before.
\<close>

definition fix_common_json_issues :: "string \<Rightarrow> string" where
  \<open>fix_common_json_issues ai_response =
     (let fixed_response =
            re_sub (CHR ''['')
              [Star Whitespace, Lit (CHR ''{''), Star Whitespace, GroupPlus NotQuoteNorSpace,
               Lit (CHR '':'')]
              (\<lambda>g. ''[{ "'' @ g @ ''":'') ai_response;
          fixed_response =
            re_sub (CHR ''{'')
              [Star Whitespace, GroupPlus NotQuoteNorSpace, Lit (CHR '':'')]
              (\<lambda>g. ''{ "'' @ g @ ''":'') fixed_response;
          fixed_response =
            re_sub (CHR '','')
              [Star Whitespace, GroupPlus NotQuoteNorSpace, Lit (CHR '':'')]
              (\<lambda>g. '', "'' @ g @ ''":'') fixed_response;
          fixed_response =
            re_sub (CHR '':'')
              [Star Whitespace, Lit (CHR ''{''), Star Whitespace, GroupPlus NotQuoteNorSpace,
               Lit (CHR '':'')]
              (\<lambda>g. '': { "'' @ g @ ''":'') fixed_response;
          fixed_response =
            re_sub (CHR ''{'')
              [Star Whitespace, Lit (CHR 0x22), Lit (CHR '':''), Star Whitespace,
               Lit (CHR 0x22), GroupPlus NotQuote, Lit (CHR 0x22)]
              (\<lambda>g. ''{ "name": "'' @ g @ ''"'') fixed_response
      in fixed_response)\<close>

section \<open>A model of \<open>json.loads\<close>\<close>

text \<open>
  \<open>json.loads\<close> belongs to the Python library, not to the repository. The pipeline
  below takes the parser as a parameter; \<open>json_loads\<close> is a model of the library's
  parser used to run the pipeline on concrete responses. It reads the text into tokens
  and the tokens into a value with a stack of open containers. It accepts what the
  library's scanner accepts on texts of the modelled alphabet: only space, tab, line feed
  and carriage return between tokens; strings without raw control characters and with the
  escapes of JSON; numbers \<open>-?(0|[1-9]\d*)(\.\d+)?([eE][-+]?\d+)?\<close>; \<open>true\<close>,
  \<open>false\<close>, \<open>null\<close>, \<open>NaN\<close>, \<open>Infinity\<close> and \<open>-Infinity\<close>; no trailing comma; a
  repeated key keeps its first position and its last value. An escape \<open>\uXXXX\<close> above
  \<open>00ff\<close> denotes a character outside the modelled alphabet and is read as the
  character 255. The depth limit of the library's recursion is not modelled.
\<close>

datatype token =
    TLBrace | TRBrace | TLBracket | TRBracket | TComma | TColon
  | TString string
  | TValue json

definition json_whitespace :: "char \<Rightarrow> bool" where
  "json_whitespace c = (c = CHR '' '' \<or> c = CHR 0x09 \<or> c = CHR 0x0A \<or> c = CHR 0x0D)"

definition is_digit :: "char \<Rightarrow> bool" where
  "is_digit c = (48 \<le> (of_char c :: nat) \<and> (of_char c :: nat) \<le> 57)"

definition digit_val :: "char \<Rightarrow> nat" where
  "digit_val c = of_char c - 48"

definition digits_val :: "string \<Rightarrow> nat" where
  "digits_val ds = foldl (\<lambda>acc d. 10 * acc + digit_val d) 0 ds"

definition hex_val :: "char \<Rightarrow> nat option" where
  "hex_val c =
     (if is_digit c then Some (digit_val c)
      else if 97 \<le> (of_char c :: nat) \<and> (of_char c :: nat) \<le> 102 then Some (of_char c - 87)
      else if 65 \<le> (of_char c :: nat) \<and> (of_char c :: nat) \<le> 70 then Some (of_char c - 55)
      else None)"

fun hex4 :: "string \<Rightarrow> nat option" where
  "hex4 [a, b, c, d] =
     (case (hex_val a, hex_val b, hex_val c, hex_val d) of
        (Some h1, Some h2, Some h3, Some h4) \<Rightarrow> Some (((h1 * 16 + h2) * 16 + h3) * 16 + h4)
      | _ \<Rightarrow> None)"
| "hex4 ds = None"

definition escape_char :: "char \<Rightarrow> char option" where
  "escape_char e =
     (if e = CHR 0x22 then Some (CHR 0x22)
      else if e = CHR 0x5C then Some (CHR 0x5C)
      else if e = CHR ''/'' then Some (CHR ''/'')
      else if e = CHR ''b'' then Some (CHR 0x08)
      else if e = CHR ''f'' then Some (CHR 0x0C)
      else if e = CHR ''n'' then Some (CHR 0x0A)
      else if e = CHR ''r'' then Some (CHR 0x0D)
      else if e = CHR ''t'' then Some (CHR 0x09)
      else None)"

text \<open>
  \<open>lex_string cs\<close> reads a string literal whose opening quote has been read: the
  decoded characters and the number of characters read, closing quote included.
\<close>

fun lex_string :: "string \<Rightarrow> (string \<times> nat) option" where
  "lex_string [] = None"
| "lex_string (c # cs) =
     (if c = CHR 0x22 then Some ([], 1)
      else if c = CHR 0x5C then
        (case cs of
           [] \<Rightarrow> None
         | e # cs' \<Rightarrow>
             if e = CHR ''u'' then
               (case hex4 (take 4 cs') of
                  None \<Rightarrow> None
                | Some n \<Rightarrow>
                    (case lex_string (drop 4 cs') of
                       None \<Rightarrow> None
                     | Some (s, k) \<Rightarrow> Some ((if n < 256 then char_of n else CHR 0xFF) # s, k + 6)))
             else
               (case escape_char e of
                  None \<Rightarrow> None
                | Some d \<Rightarrow>
                    (case lex_string cs' of
                       None \<Rightarrow> None
                     | Some (s, k) \<Rightarrow> Some (d # s, k + 2))))
      else if (of_char c :: nat) < 32 then None
      else (case lex_string cs of None \<Rightarrow> None | Some (s, k) \<Rightarrow> Some (c # s, k + 1)))"

text \<open>
  The three parts of a number: the integer part, the fraction and the exponent (its
  value and its length). A \<open>.\<close> or \<open>e\<close> that no digit follows is not part of the
  number.
\<close>

definition lex_int_part :: "string \<Rightarrow> string option" where
  "lex_int_part s =
     (case s of
        [] \<Rightarrow> None
      | c # cs \<Rightarrow>
          if c = CHR ''0'' then Some [c]
          else if is_digit c then Some (c # takeWhile is_digit cs)
          else None)"

definition lex_frac_part :: "string \<Rightarrow> string option" where
  "lex_frac_part s =
     (case s of
        c # d # cs \<Rightarrow>
          if c = CHR ''.'' \<and> is_digit d then Some (d # takeWhile is_digit cs) else None
      | _ \<Rightarrow> None)"

definition lex_exp_part :: "string \<Rightarrow> (int \<times> nat) option" where
  "lex_exp_part s =
     (case s of
        c # cs \<Rightarrow>
          if c = CHR ''e'' \<or> c = CHR ''E'' then
            (case cs of
               d # ds \<Rightarrow>
                 if d = CHR ''+'' \<or> d = CHR ''-'' then
                   (let digits = takeWhile is_digit ds
                    in if digits = [] then None
                       else Some ((if d = CHR ''-'' then - int (digits_val digits)
                                   else int (digits_val digits)), 2 + length digits))
                 else
                   (let digits = takeWhile is_digit cs
                    in if digits = [] then None
                       else Some (int (digits_val digits), 1 + length digits))
             | [] \<Rightarrow> None)
          else None
      | [] \<Rightarrow> None)"

definition lex_number :: "string \<Rightarrow> (json \<times> nat) option" where
  "lex_number s =
     (let negative = (s \<noteq> [] \<and> hd s = CHR ''-'');
          body = (if negative then tl s else s);
          sign = (if negative then - 1 else 1 :: int);
          offset = (if negative then 1 else 0 :: nat)
      in case lex_int_part body of
           None \<Rightarrow> None
         | Some integer \<Rightarrow>
             (let after_int = drop (length integer) body;
                  frac = lex_frac_part after_int;
                  frac_digits = (case frac of None \<Rightarrow> [] | Some ds \<Rightarrow> ds);
                  frac_len = (case frac of None \<Rightarrow> 0 | Some ds \<Rightarrow> 1 + length ds);
                  after_frac = drop frac_len after_int;
                  exp = lex_exp_part after_frac;
                  exp_len = (case exp of None \<Rightarrow> 0 | Some (e, n) \<Rightarrow> n);
                  exp_val = (case exp of None \<Rightarrow> 0 | Some (e, n) \<Rightarrow> e)
              in if frac = None \<and> exp = None
                 then Some (JInt (sign * int (digits_val integer)), offset + length integer)
                 else Some (JFloat (Decimal (sign * int (digits_val (integer @ frac_digits)))
                                      (exp_val - int (length frac_digits))),
                            offset + length integer + frac_len + exp_len)))"

text \<open>
  The tokens of a text. A literal or number is recognised where it starts; two values
  next to each other are refused by the parser, as they are by the library's scanner.
\<close>

fun tokenize :: "string \<Rightarrow> token list option" where
  "tokenize [] = Some []"
| "tokenize (c # cs) =
     (if json_whitespace c then tokenize cs
      else if c = CHR ''{'' then map_option ((#) TLBrace) (tokenize cs)
      else if c = CHR ''}'' then map_option ((#) TRBrace) (tokenize cs)
      else if c = CHR ''['' then map_option ((#) TLBracket) (tokenize cs)
      else if c = CHR '']'' then map_option ((#) TRBracket) (tokenize cs)
      else if c = CHR '','' then map_option ((#) TComma) (tokenize cs)
      else if c = CHR '':'' then map_option ((#) TColon) (tokenize cs)
      else if c = CHR 0x22 then
        (case lex_string cs of
           None \<Rightarrow> None
         | Some (s, n) \<Rightarrow> map_option ((#) (TString s)) (tokenize (drop n cs)))
      else if startswith (c # cs) ''null'' then
        map_option ((#) (TValue JNull)) (tokenize (drop 3 cs))
      else if startswith (c # cs) ''true'' then
        map_option ((#) (TValue (JBool True))) (tokenize (drop 3 cs))
      else if startswith (c # cs) ''false'' then
        map_option ((#) (TValue (JBool False))) (tokenize (drop 4 cs))
      else
        (case lex_number (c # cs) of
           Some (v, n) \<Rightarrow> map_option ((#) (TValue v)) (tokenize (drop (n - 1) cs))
         | None \<Rightarrow>
             if startswith (c # cs) ''NaN'' then
               map_option ((#) (TValue (JFloat NaN))) (tokenize (drop 2 cs))
             else if startswith (c # cs) ''Infinity'' then
               map_option ((#) (TValue (JFloat Infinity))) (tokenize (drop 7 cs))
             else if startswith (c # cs) ''-Infinity'' then
               map_option ((#) (TValue (JFloat NegInfinity))) (tokenize (drop 8 cs))
             else None))"

text \<open>\<open>d[key] = v\<close> on the item list of a dict.\<close>

fun dict_set :: "(string \<times> json) list \<Rightarrow> string \<Rightarrow> json \<Rightarrow> (string \<times> json) list" where
  "dict_set [] key v = [(key, v)]"
| "dict_set ((k, w) # items) key v =
     (if k = key then (k, v) # items else (k, w) # dict_set items key v)"

text \<open>
  The stack holds the containers still open: an array with its elements so far, an
  object with its items so far, or an object whose key has been read and whose value is
  awaited. \<open>expecting\<close> is what may come next.
\<close>

datatype frame =
    InArray "json list"
  | InObject "(string \<times> json) list"
  | InMember "(string \<times> json) list" string

datatype expecting =
    WantValue | WantValueOrEnd | WantKeyOrEnd | WantKey | WantColon | AfterValue
  | Finished json

fun complete_value :: "json \<Rightarrow> frame list \<Rightarrow> (expecting \<times> frame list) option" where
  "complete_value v [] = Some (Finished v, [])"
| "complete_value v (InArray xs # stack) = Some (AfterValue, InArray (xs @ [v]) # stack)"
| "complete_value v (InMember items key # stack) =
     Some (AfterValue, InObject (dict_set items key v) # stack)"
| "complete_value v (InObject items # stack) = None"

fun wants_value :: "expecting \<Rightarrow> bool" where
  "wants_value WantValue = True"
| "wants_value WantValueOrEnd = True"
| "wants_value e = False"

fun parse_step :: "expecting \<Rightarrow> frame list \<Rightarrow> token \<Rightarrow> (expecting \<times> frame list) option" where
  "parse_step e stack (TValue v) = (if wants_value e then complete_value v stack else None)"
| "parse_step e stack TLBrace =
     (if wants_value e then Some (WantKeyOrEnd, InObject [] # stack) else None)"
| "parse_step e stack TLBracket =
     (if wants_value e then Some (WantValueOrEnd, InArray [] # stack) else None)"
| "parse_step WantKeyOrEnd (InObject items # stack) (TString s) =
     Some (WantColon, InMember items s # stack)"
| "parse_step WantKey (InObject items # stack) (TString s) =
     Some (WantColon, InMember items s # stack)"
| "parse_step e stack (TString s) =
     (if wants_value e then complete_value (JStr s) stack else None)"
| "parse_step WantColon stack TColon = Some (WantValue, stack)"
| "parse_step WantKeyOrEnd (InObject items # stack) TRBrace = complete_value (JObj items) stack"
| "parse_step AfterValue (InObject items # stack) TRBrace = complete_value (JObj items) stack"
| "parse_step WantValueOrEnd (InArray xs # stack) TRBracket = complete_value (JArr xs) stack"
| "parse_step AfterValue (InArray xs # stack) TRBracket = complete_value (JArr xs) stack"
| "parse_step AfterValue (InObject items # stack) TComma = Some (WantKey, InObject items # stack)"
| "parse_step AfterValue (InArray xs # stack) TComma = Some (WantValue, InArray xs # stack)"
| "parse_step e stack t = None"

fun parse_tokens :: "expecting \<Rightarrow> frame list \<Rightarrow> token list \<Rightarrow> json option" where
  "parse_tokens (Finished v) stack [] = Some v"
| "parse_tokens e stack [] = None"
| "parse_tokens e stack (t # ts) =
     (case parse_step e stack t of
        None \<Rightarrow> None
      | Some (e', stack') \<Rightarrow> parse_tokens e' stack' ts)"

definition json_loads :: "string \<Rightarrow> error + json" where
  "json_loads s =
     (case tokenize s of
        None \<Rightarrow> Inl JSONDecodeError
      | Some tokens \<Rightarrow>
          (case parse_tokens WantValue [] tokens of
             None \<Rightarrow> Inl JSONDecodeError
           | Some v \<Rightarrow> Inr v))"

section \<open>Schema validation\<close>

text \<open>
  \<open>personal_info.get(key)\<close>: only a dict has the method; on any other value the
  attribute lookup raises \<open>AttributeError\<close>. A missing key gives \<open>None\<close>.
\<close>

fun py_get :: "json \<Rightarrow> string \<Rightarrow> error + json" where
  "py_get (JObj items) key = Inr (case map_of items key of Some v \<Rightarrow> v | None \<Rightarrow> JNull)"
| "py_get v key = Inl AttributeError"

text \<open>\<open>_validate_required_fields\<close>, on the items of the dict \<open>data\<close>.\<close>

definition validate_required_fields :: "(string \<times> json) list \<Rightarrow> error + unit" where
  "validate_required_fields data =
     (case map_of data ''personal_information'' of
        None \<Rightarrow> Inl MissingSection
      | Some personal_info \<Rightarrow>
          (case py_get personal_info ''first_name'' of
             Inl e \<Rightarrow> Inl e
           | Inr first_name \<Rightarrow>
               if \<not> truthy first_name then Inl (MissingField ''first_name'')
               else
                 (case py_get personal_info ''last_name'' of
                    Inl e \<Rightarrow> Inl e
                  | Inr last_name \<Rightarrow>
                      if \<not> truthy last_name then Inl (MissingField ''last_name'')
                      else Inr ())))"

text \<open>The warnings \<open>_validate_json_format\<close> collects.\<close>

datatype warning =
    WrongType string string string
  | MissingOptional string
  | WrongPersonalType string string string
  | MissingOptionalPersonal string
  | ReferenceNotObject nat string
  | ReferenceMissingField nat string

definition expected_structure :: "(string \<times> pytype) list" where
  "expected_structure =
     [(''personal_information'', TDict),
      (''professional_summary'', TStr),
      (''work_experience'', TList),
      (''it_system_used'', TList),
      (''education'', TList),
      (''skills'', TDict),
      (''certifications'', TList),
      (''projects'', TList),
      (''awards_and_honors'', TList),
      (''volunteer_experience'', TList),
      (''interests'', TList),
      (''references'', TList),
      (''additional_information'', TStr)]"

definition expected_personal_fields :: "(string \<times> pytype) list" where
  "expected_personal_fields =
     [(''first_name'', TStr),
      (''middle_name'', TStr),
      (''last_name'', TStr),
      (''emails'', TList),
      (''birth_date'', TStr),
      (''gender'', TStr),
      (''civil_status'', TStr),
      (''alias'', TList),
      (''phones'', TList),
      (''address'', TDict),
      (''desired_location'', TDict),
      (''work_preference'', TDict),
      (''social_urls'', TList)]"

text \<open>The first loop: \<open>data\<close> is a dict, so neither the test nor the lookup can raise.\<close>

fun check_top_level :: "(string \<times> json) list \<Rightarrow> (string \<times> pytype) list \<Rightarrow> warning list" where
  "check_top_level data [] = []"
| "check_top_level data ((key, expected_type) # rest) =
     (case map_of data key of
        Some v \<Rightarrow>
          (if \<not> isinstance v expected_type
           then [WrongType key (pytype_name expected_type) (type_name v)] else [])
      | None \<Rightarrow> [MissingOptional key])
     @ check_top_level data rest"

text \<open>
  \<open>field in personal_info\<close> and \<open>personal_info[field]\<close> for whatever value the section
  is: membership among the keys of a dict, among the elements of a list, as a substring
  of a string, and \<open>TypeError\<close> on \<open>None\<close>, a bool or a number; subscription with a string
  works on a dict alone.
\<close>

fun py_contains :: "json \<Rightarrow> string \<Rightarrow> error + bool" where
  "py_contains (JObj items) key = Inr (map_of items key \<noteq> None)"
| "py_contains (JArr xs) key = Inr (JStr key \<in> set xs)"
| "py_contains (JStr s) key = Inr (contains_str s key)"
| "py_contains v key = Inl TypeError"

fun py_getitem :: "json \<Rightarrow> string \<Rightarrow> error + json" where
  "py_getitem (JObj items) key =
     (case map_of items key of Some v \<Rightarrow> Inr v | None \<Rightarrow> Inl KeyError)"
| "py_getitem v key = Inl TypeError"

fun check_personal_fields :: "json \<Rightarrow> (string \<times> pytype) list \<Rightarrow> error + warning list" where
  "check_personal_fields personal_info [] = Inr []"
| "check_personal_fields personal_info ((field, expected_type) # rest) =
     (case py_contains personal_info field of
        Inl e \<Rightarrow> Inl e
      | Inr present \<Rightarrow>
          (case (if present
                 then (case py_getitem personal_info field of
                         Inl e \<Rightarrow> Inl e
                       | Inr v \<Rightarrow>
                           Inr (if \<not> isinstance v expected_type
                                then [WrongPersonalType field (pytype_name expected_type)
                                        (type_name v)]
                                else []))
                 else Inr [MissingOptionalPersonal field]) of
             Inl e \<Rightarrow> Inl e
           | Inr ws \<Rightarrow>
               (case check_personal_fields personal_info rest of
                  Inl e \<Rightarrow> Inl e
                | Inr ws' \<Rightarrow> Inr (ws @ ws'))))"

text \<open>The loop over the references, \<open>i\<close> being the index of the first one still to check.\<close>

fun check_references :: "nat \<Rightarrow> json list \<Rightarrow> warning list" where
  "check_references i [] = []"
| "check_references i (JObj items # rest) =
     (if map_of items ''name'' = None then [ReferenceMissingField i ''name''] else [])
     @ (if map_of items ''relationship'' = None
        then [ReferenceMissingField i ''relationship''] else [])
     @ check_references (i + 1) rest"
| "check_references i (reference # rest) =
     ReferenceNotObject i (type_name reference) # check_references (i + 1) rest"

text \<open>\<open>_validate_json_format\<close>: the warnings it prints, or the exception it re-raises.\<close>

definition validate_json_format :: "(string \<times> json) list \<Rightarrow> error + warning list" where
  "validate_json_format data =
     (let validation_warnings = check_top_level data expected_structure
      in case (case map_of data ''personal_information'' of
                 Some personal_info \<Rightarrow> check_personal_fields personal_info expected_personal_fields
               | None \<Rightarrow> Inr []) of
           Inl e \<Rightarrow> Inl e
         | Inr personal_warnings \<Rightarrow>
             Inr (validation_warnings @ personal_warnings
                  @ (case map_of data ''references'' of
                       Some (JArr references) \<Rightarrow> check_references 0 references
                     | _ \<Rightarrow> [])))"

text \<open>
  \<open>_validate_and_return_result\<close>, and the same three checks as \<open>_parse_ai_response\<close>
  runs them on a response that parsed directly (the two differ in the message of the
  first check only).
\<close>

definition validate_and_return_result :: "json \<Rightarrow> error + json" where
  "validate_and_return_result result =
     (case result of
        JObj data \<Rightarrow>
          (case validate_required_fields data of
             Inl e \<Rightarrow> Inl e
           | Inr u \<Rightarrow>
               (case validate_json_format data of
                  Inl e \<Rightarrow> Inl e
                | Inr ws \<Rightarrow> Inr result))
      | _ \<Rightarrow> Inl FixedNotJsonObject)"

definition validate_direct_result :: "json \<Rightarrow> error + json" where
  "validate_direct_result result =
     (case result of
        JObj data \<Rightarrow>
          (case validate_required_fields data of
             Inl e \<Rightarrow> Inl e
           | Inr u \<Rightarrow>
               (case validate_json_format data of
                  Inl e \<Rightarrow> Inl e
                | Inr ws \<Rightarrow> Inr result))
      | _ \<Rightarrow> Inl NotJsonObject)"

text \<open>
  The failure condition of the required-field check. \<open>absent_or_falsy\<close> is what the
  source tests with \<open>not personal_info.get(key)\<close> on a dict. \<open>spec_required_failure\<close>
  follows the words of the specification instead: the section is lacking, or one of the
  two identity fields is absent or empty (an empty string, array or object, or null; a
  section that is no object has no fields).
\<close>

definition absent_or_falsy :: "(string \<times> json) list \<Rightarrow> string \<Rightarrow> bool" where
  "absent_or_falsy items key = (case map_of items key of None \<Rightarrow> True | Some v \<Rightarrow> \<not> truthy v)"

definition spec_absent_or_empty :: "json \<Rightarrow> string \<Rightarrow> bool" where
  "spec_absent_or_empty personal_info key =
     (case personal_info of
        JObj items \<Rightarrow>
          (case map_of items key of
             None \<Rightarrow> True
           | Some v \<Rightarrow> v = JNull \<or> v = JStr [] \<or> v = JArr [] \<or> v = JObj [])
      | _ \<Rightarrow> True)"

definition spec_required_failure :: "(string \<times> json) list \<Rightarrow> bool" where
  "spec_required_failure data =
     (case map_of data ''personal_information'' of
        None \<Rightarrow> True
      | Some personal_info \<Rightarrow>
          spec_absent_or_empty personal_info ''first_name''
          \<or> spec_absent_or_empty personal_info ''last_name'')"

section \<open>Repair strategies that need the parser\<close>

type_synonym parser = "string \<Rightarrow> error + json"

text \<open>
  The loop of \<open>_extract_valid_json\<close>: from the first opening brace on, count the
  braces and stop at the closing brace that brings the count back to zero. \<open>i\<close> is the
  index of the first character of \<open>cs\<close>; the result is \<open>end_brace\<close>, or \<open>None\<close> for
  the \<open>-1\<close> the loop leaves when it runs out of text.
\<close>

fun match_brace :: "string \<Rightarrow> nat \<Rightarrow> int \<Rightarrow> nat option" where
  "match_brace [] i brace_count = None"
| "match_brace (c # cs) i brace_count =
     (if c = CHR ''{'' then match_brace cs (i + 1) (brace_count + 1)
      else if c = CHR ''}'' then
        (if brace_count - 1 = 0 then Some i else match_brace cs (i + 1) (brace_count - 1))
      else match_brace cs (i + 1) brace_count)"

text \<open>\<open>response.find(c)\<close> for a character: its first index, or \<open>None\<close> for \<open>-1\<close>.\<close>

definition find_char :: "string \<Rightarrow> char \<Rightarrow> nat option" where
  "find_char response c =
     (if c \<in> set response then Some (length (takeWhile (\<lambda>x. x \<noteq> c) response)) else None)"

text \<open>
  \<open>_extract_valid_json\<close>. It returns the text between the two braces when the parser
  accepts it and \<open>None\<close> otherwise; an exception of the parser other than
  \<open>JSONDecodeError\<close> is not caught here.
\<close>

definition extract_valid_json :: "parser \<Rightarrow> string \<Rightarrow> error + string option" where
  "extract_valid_json loads response =
     (case find_char response (CHR ''{'') of
        None \<Rightarrow> Inr None
      | Some start_brace \<Rightarrow>
          (case match_brace (drop start_brace response) start_brace 0 of
             None \<Rightarrow> Inr None
           | Some end_brace \<Rightarrow>
               (let potential_json = take (end_brace + 1 - start_brace) (drop start_brace response)
                in case loads potential_json of
                     Inr v \<Rightarrow> Inr (Some potential_json)
                   | Inl e \<Rightarrow> if e = JSONDecodeError then Inr None else Inl e)))"

text \<open>
  \<open>_complete_truncated_json\<close>. The closed text is returned when it parses; when it does
  not, the key-quoting repair of the closed text is returned if that parses (the bare
  \<open>except\<close> of the retry catches everything).
\<close>

definition complete_truncated_json :: "parser \<Rightarrow> string \<Rightarrow> error + string option" where
  "complete_truncated_json loads response0 =
     (let response = strip response0;
          last_complete = find_last_complete_structure response
      in if last_complete \<noteq> 0 then Inr (Some (take last_complete response))
         else
           (let open_braces = count_char response (CHR ''{'') - count_char response (CHR ''}'');
                open_brackets = count_char response (CHR ''['') - count_char response (CHR '']'')
            in if open_braces < 0 \<or> open_brackets < 0 then Inr None
               else
                 (let completed = response @ replicate (nat open_brackets) (CHR '']'')
                        @ replicate (nat open_braces) (CHR ''}'')
                  in case loads completed of
                       Inr v \<Rightarrow> Inr (Some completed)
                     | Inl e \<Rightarrow>
                         if e = JSONDecodeError then
                           (let fixed = fix_common_json_issues completed
                            in case loads fixed of
                                 Inr v \<Rightarrow> Inr (Some fixed)
                               | Inl e' \<Rightarrow> Inr None)
                         else Inl e)))"

section \<open>Requests to the completion API\<close>

text \<open>
  A request is the part of the payload that varies: the model, the two messages and
  \<open>max_tokens\<close> (the temperature and the response format are constants). The remote
  API is a parameter: a function from the request to the exception the call raises or to
  the content and the finish reason of the first choice.
\<close>

record request =
  req_model :: string
  system_message :: string
  user_message :: string
  max_tokens :: int

type_synonym transport = "request \<Rightarrow> error + string \<times> string option"

text \<open>The fields of the \<open>AIProcessor\<close> object the pipeline reads.\<close>

record ai_processor =
  primary_model :: string
  fallback_models :: "string list"
  model_token_limits :: "string \<rightharpoonup> int"
  enable_fallback_models :: bool

definition SYSTEM_MESSAGE :: string where
  \<open>SYSTEM_MESSAGE = ''You are a CV parsing assistant. Output CV data in the EXACT JSON format specified. Include 'first_name' and 'last_name' in personal_information. Respond with valid JSON only - no explanations or markdown. If response is too long, prioritize key information and ensure JSON is complete.''\<close>

record response_info =
  info_content :: string
  info_model_used :: string
  info_finish_reason :: "string option"

text \<open>
  \<open>_call_openrouter_api\<close>; the fields of \<open>response_info\<close> are the keys
  \<open>content\<close>, \<open>model_used\<close> and \<open>finish_reason\<close> of the dict it returns.
\<close>

definition call_openrouter_api ::
    "ai_processor \<Rightarrow> transport \<Rightarrow> string \<Rightarrow> string \<Rightarrow> event list \<times> (error + response_info)" where
  "call_openrouter_api self post prompt model =
     (let payload = \<lparr>req_model = model, system_message = SYSTEM_MESSAGE, user_message = prompt,
            max_tokens = calculate_max_tokens (model_token_limits self) model (int (length prompt))\<rparr>
      in case post payload of
           Inl e \<Rightarrow> ([ApiCall model], Inl e)
         | Inr (ai_response, reason) \<Rightarrow>
             (let (warnings, fixed) = truncation_check reason ai_response
              in (ApiCall model # warnings,
                  Inr \<lparr>info_content = fixed, info_model_used = model,
                       info_finish_reason = reason\<rparr>)))"

section \<open>AI continuation\<close>

text \<open>\<open>_has_valid_starting_structure\<close>.\<close>

definition required_elements :: "string list" where
  \<open>required_elements = [''"personal_information"'', ''"first_name"'', ''"last_name"'']\<close>

definition has_valid_starting_structure :: "string \<Rightarrow> bool" where
  "has_valid_starting_structure response =
     (case find_char response (CHR ''{'') of
        None \<Rightarrow> False
      | Some start_brace \<Rightarrow>
          (let found_elements = length (filter (contains_str response) required_elements)
           in found_elements \<ge> 2))"

definition CONTINUATION_SYSTEM_MESSAGE :: string where
  \<open>CONTINUATION_SYSTEM_MESSAGE = ''You are a CV parsing assistant. Continue the JSON response from where it was truncated. Do not repeat content, just continue the structure.''\<close>

definition continuation_prompt :: "string \<Rightarrow> string" where
  \<open>continuation_prompt last_complete =
     ''Your previous response was truncated. Please continue from where you left off.\<newline>''
     @ ''\<newline>''
     @ ''Previous response (truncated):\<newline>''
     @ last_complete @ ''\<newline>''
     @ ''\<newline>''
     @ ''IMPORTANT: \<newline>''
     @ ''1. Continue the JSON structure from where it was cut off\<newline>''
     @ ''2. Do NOT repeat any content from the previous response\<newline>''
     @ ''3. Do NOT add opening braces or brackets - continue from where the previous response ended\<newline>''
     @ ''4. Ensure the final result is valid JSON when combined with the previous response\<newline>''
     @ ''5. Include the closing brace } at the end\<newline>''
     @ ''\<newline>''
     @ ''Continue the JSON response:''\<close>

text \<open>
  \<open>_continue_ai_response\<close>: no request is posted when the response has no complete
  prefix; a failed call gives \<open>None\<close>.
\<close>

definition continue_ai_response ::
    "ai_processor \<Rightarrow> transport \<Rightarrow> string \<Rightarrow> string \<Rightarrow> string \<Rightarrow> event list \<times> string option" where
  "continue_ai_response self post truncated_response original_prompt model =
     (let last_complete_pos = find_last_complete_structure truncated_response
      in if last_complete_pos = 0 then ([ContinuationRequested], None)
         else
           (let last_complete = take last_complete_pos truncated_response;
                payload = \<lparr>req_model = model, system_message = CONTINUATION_SYSTEM_MESSAGE,
                  user_message = continuation_prompt last_complete,
                  max_tokens = min 10000
                    (case model_token_limits self model of Some limit \<Rightarrow> limit | None \<Rightarrow> 8000)\<rparr>
            in case post payload of
                 Inl e \<Rightarrow> ([ContinuationRequested, ContinuationCall model], None)
               | Inr (continuation, reason) \<Rightarrow>
                   ([ContinuationRequested, ContinuationCall model], Some continuation)))"

text \<open>\<open>_concatenate_responses\<close>; \<open>rstrip(',')\<close> removes every trailing comma.\<close>

definition concatenate_responses :: "string \<Rightarrow> string \<Rightarrow> string option" where
  "concatenate_responses original_response continuation =
     (let last_complete_pos = find_last_complete_structure original_response
      in if last_complete_pos = 0 then None
         else
           (let complete_part = take last_complete_pos original_response;
                complete_part = rev (dropWhile (\<lambda>c. c = CHR '','') (rev (rstrip complete_part)))
            in Some (complete_part @ continuation)))"

section \<open>Parsing a response\<close>

text \<open>
  The continuation block of \<open>_parse_ai_response\<close>: the validated result of the
  continued response, or \<open>None\<close> when the continuation is missing or empty or anything
  in the block raises (\<open>json.loads(None)\<close>, the parser, the validation).
\<close>

definition try_continuation ::
    "ai_processor \<Rightarrow> parser \<Rightarrow> transport \<Rightarrow> string \<Rightarrow> string \<Rightarrow> string
       \<Rightarrow> event list \<times> json option" where
  "try_continuation self loads post ai_response original_prompt model =
     (let (log, continued_response) =
            continue_ai_response self post ai_response original_prompt model
      in case continued_response of
           None \<Rightarrow> (log, None)
         | Some continuation \<Rightarrow>
             if continuation = [] then (log, None)
             else
               (case concatenate_responses ai_response continuation of
                  None \<Rightarrow> (log, None)
                | Some combined_response \<Rightarrow>
                    (case loads combined_response of
                       Inl e \<Rightarrow> (log, None)
                     | Inr result \<Rightarrow>
                         (case validate_and_return_result result of
                            Inl e \<Rightarrow> (log, None)
                          | Inr validated \<Rightarrow> (log, Some validated)))))"

text \<open>
  The three approaches of \<open>_parse_ai_response\<close>, each on the original response: the
  validated result, or \<open>None\<close> when the approach gives no text or anything in its
  \<open>try\<close> block raises.
\<close>

definition approach_fix_common_issues :: "parser \<Rightarrow> string \<Rightarrow> json option" where
  "approach_fix_common_issues loads ai_response =
     (let fixed_response = fix_common_json_issues ai_response
      in case loads fixed_response of
           Inl e \<Rightarrow> None
         | Inr result \<Rightarrow>
             (case validate_and_return_result result of
                Inl e \<Rightarrow> None
              | Inr validated \<Rightarrow> Some validated))"

definition approach_extract_valid_json :: "parser \<Rightarrow> string \<Rightarrow> json option" where
  "approach_extract_valid_json loads ai_response =
     (case extract_valid_json loads ai_response of
        Inl e \<Rightarrow> None
      | Inr None \<Rightarrow> None
      | Inr (Some fixed_response) \<Rightarrow>
          if fixed_response = [] then None
          else
            (case loads fixed_response of
               Inl e \<Rightarrow> None
             | Inr result \<Rightarrow>
                 (case validate_and_return_result result of
                    Inl e \<Rightarrow> None
                  | Inr validated \<Rightarrow> Some validated)))"

definition approach_complete_truncated :: "parser \<Rightarrow> string \<Rightarrow> json option" where
  "approach_complete_truncated loads ai_response =
     (case complete_truncated_json loads ai_response of
        Inl e \<Rightarrow> None
      | Inr None \<Rightarrow> None
      | Inr (Some fixed_response) \<Rightarrow>
          if fixed_response = [] then None
          else
            (case loads fixed_response of
               Inl e \<Rightarrow> None
             | Inr result \<Rightarrow>
                 (case validate_and_return_result result of
                    Inl e \<Rightarrow> None
                  | Inr validated \<Rightarrow> Some validated)))"

text \<open>
  The repair part of \<open>_parse_ai_response\<close> (from the comment \<open>Try multiple approaches
  to fix the JSON\<close> on): approach 1, 2 and 3 in the order of the source, and the exception that carries
  the raw response when all three fail.
\<close>

definition repair_json :: "parser \<Rightarrow> string \<Rightarrow> event list \<times> (error + json)" where
  "repair_json loads ai_response =
     (case approach_fix_common_issues loads ai_response of
        Some result \<Rightarrow> ([ApproachFixCommonIssues], Inr result)
      | None \<Rightarrow>
          (case approach_extract_valid_json loads ai_response of
             Some result \<Rightarrow> ([ApproachFixCommonIssues, ApproachExtractValidJson], Inr result)
           | None \<Rightarrow>
               (case approach_complete_truncated loads ai_response of
                  Some result \<Rightarrow>
                    ([ApproachFixCommonIssues, ApproachExtractValidJson,
                      ApproachCompleteTruncated], Inr result)
                | None \<Rightarrow>
                    ([ApproachFixCommonIssues, ApproachExtractValidJson,
                      ApproachCompleteTruncated], Inl (RepairsFailed ai_response)))))"

text \<open>
  \<open>_parse_ai_response\<close>. The caller always passes a prompt and a model, so both are
  strings here and \<open>original_prompt and model\<close> holds when neither is empty.
\<close>

definition parse_ai_response ::
    "ai_processor \<Rightarrow> parser \<Rightarrow> transport \<Rightarrow> string \<Rightarrow> string \<Rightarrow> string
       \<Rightarrow> event list \<times> (error + json)" where
  "parse_ai_response self loads post ai_response original_prompt model =
     (case loads ai_response of
        Inr result \<Rightarrow> ([], validate_direct_result result)
      | Inl e \<Rightarrow>
          if e \<noteq> JSONDecodeError then ([], Inl e)
          else
            (let (log, continued) =
                   (if original_prompt \<noteq> [] \<and> model \<noteq> []
                       \<and> has_valid_starting_structure ai_response
                    then try_continuation self loads post ai_response original_prompt model
                    else ([], None))
             in case continued of
                  Some result \<Rightarrow> (log, Inr result)
                | None \<Rightarrow>
                    (let (repair_log, outcome) = repair_json loads ai_response
                     in (log @ repair_log, outcome))))"

section \<open>The prompt\<close>

text \<open>\<open>str(n)\<close> for a length: its decimal digits.\<close>

function str_of_nat :: "nat \<Rightarrow> string" where
  "str_of_nat n =
     (if n < 10 then [char_of (48 + n)]
      else str_of_nat (n div 10) @ [char_of (48 + n mod 10)])"
  by pat_completeness auto
termination
  by (relation "measure id") auto

definition CV_PROMPT_FORMAT :: string where
  \<open>CV_PROMPT_FORMAT =
     ''\<newline>''
     @ ''\<newline>''
     @ ''{\<newline>''
     @ ''  "personal_information": {\<newline>''
     @ ''    "first_name": "string",\<newline>''
     @ ''    "middle_name": "string",\<newline>''
     @ ''    "last_name": "string",\<newline>''
     @ ''    "emails": ["string"],\<newline>''
     @ ''    "birth_date": "YYYY-MM-DD",\<newline>''
     @ ''    "gender": "string",\<newline>''
     @ ''    "civil_status": "string",\<newline>''
     @ ''    "alias": ["string"],\<newline>''
     @ ''    "phones": [\<newline>''
     @ ''      {\<newline>''
     @ ''        "type": "string",\<newline>''
     @ ''        "number": "string"\<newline>''
     @ ''      }\<newline>''
     @ ''    ],\<newline>''
     @ ''    "address": {\<newline>''
     @ ''      "street": "string",\<newline>''
     @ ''      "barangay": "string",\<newline>''
     @ ''      "city": "string",\<newline>''
     @ ''      "state": "string",\<newline>''
     @ ''      "postal_code": "string",\<newline>''
     @ ''      "country": "string"\<newline>''
     @ ''    },\<newline>''
     @ ''    "desired_location": {\<newline>''
     @ ''      "city": "string",\<newline>''
     @ ''      "state": "string",\<newline>''
     @ ''      "country": "string"\<newline>''
     @ ''    },\<newline>''
     @ ''    "work_preference": {\<newline>''
     @ ''      "open_to_work_from_home": boolean,\<newline>''
     @ ''      "open_to_onsite": boolean\<newline>''
     @ ''    },\<newline>''
     @ ''    "social_urls": [\<newline>''
     @ ''      {\<newline>''
     @ ''        "platform": "string",\<newline>''
     @ ''        "url": "string"\<newline>''
     @ ''      }\<newline>''
     @ ''    ]\<newline>''
     @ ''  },\<newline>''
     @ ''  "professional_summary": "string",\<newline>''
     @ ''  "work_experience": [\<newline>''
     @ ''    {\<newline>''
     @ ''      "job_title": "string",\<newline>''
     @ ''      "company_name": "string",\<newline>''
     @ ''      "location": "string",\<newline>''
     @ ''      "start_date": "YYYY-MM",\<newline>''
     @ ''      "end_date": "YYYY-MM or Present",\<newline>''
     @ ''      "responsibilities": ["string"]\<newline>''
     @ ''    }\<newline>''
     @ ''  ],\<newline>''
     @ ''  "it_system_used": [\<newline>''
     @ ''    {\<newline>''
     @ ''      "abbreviation": "string",\<newline>''
     @ ''      "name_of_system": "string"\<newline>''
     @ ''    }\<newline>''
     @ ''  ],\<newline>''
     @ ''  "education": [\<newline>''
     @ ''    {\<newline>''
     @ ''      "degree": "string",\<newline>''
     @ ''      "institution": "string",\<newline>''
     @ ''      "location": "string",\<newline>''
     @ ''      "start_date": "YYYY-MM",\<newline>''
     @ ''      "end_date": "YYYY-MM",\<newline>''
     @ ''      "gpa": "string (optional)",\<newline>''
     @ ''      "honors": "string (optional)"\<newline>''
     @ ''    }\<newline>''
     @ ''  ],\<newline>''
     @ ''  "skills": {\<newline>''
     @ ''    "technical_skills": ["string"],\<newline>''
     @ ''    "soft_skills": ["string"],\<newline>''
     @ ''    "computer_languages": [\<newline>''
     @ ''      {\<newline>''
     @ ''        "language": "string",\<newline>''
     @ ''        "proficiency": "string"\<newline>''
     @ ''      }\<newline>''
     @ ''    ]\<newline>''
     @ ''  },\<newline>''
     @ ''  "certifications": [\<newline>''
     @ ''    {\<newline>''
     @ ''      "name": "string",\<newline>''
     @ ''      "issuing_organization": "string",\<newline>''
     @ ''      "issue_date": "YYYY-MM",\<newline>''
     @ ''      "expiration_date": "YYYY-MM (optional)",\<newline>''
     @ ''      "credential_id": "string (optional)"\<newline>''
     @ ''    }\<newline>''
     @ ''  ],\<newline>''
     @ ''  "projects": [\<newline>''
     @ ''    {\<newline>''
     @ ''      "title": "string",\<newline>''
     @ ''      "description": "string",\<newline>''
     @ ''      "technologies_used": ["string"],\<newline>''
     @ ''      "start_date": "YYYY-MM",\<newline>''
     @ ''      "end_date": "YYYY-MM or Present",\<newline>''
     @ ''      "project_url": "string (optional)"\<newline>''
     @ ''    }\<newline>''
     @ ''  ],\<newline>''
     @ ''  "awards_and_honors": [\<newline>''
     @ ''    {\<newline>''
     @ ''      "title": "string",\<newline>''
     @ ''      "issuer": "string",\<newline>''
     @ ''      "date_received": "YYYY-MM",\<newline>''
     @ ''      "description": "string"\<newline>''
     @ ''    }\<newline>''
     @ ''  ],\<newline>''
     @ ''  "volunteer_experience": [\<newline>''
     @ ''    {\<newline>''
     @ ''      "role": "string",\<newline>''
     @ ''      "organization": "string",\<newline>''
     @ ''      "location": "string",\<newline>''
     @ ''      "start_date": "YYYY-MM",\<newline>''
     @ ''      "end_date": "YYYY-MM or Present",\<newline>''
     @ ''      "description": "string"\<newline>''
     @ ''    }\<newline>''
     @ ''  ],\<newline>''
     @ ''  "interests": ["string"],\<newline>''
     @ ''  "references": [\<newline>''
     @ ''    {\<newline>''
     @ ''      "name": "string",\<newline>''
     @ ''      "relationship": "string",\<newline>''
     @ ''      "email": "string",\<newline>''
     @ ''      "phone": "string"\<newline>''
     @ ''    }\<newline>''
     @ ''  ],\<newline>''
     @ ''  "additional_information": "string (optional, for any extra details not fitting the above structure)"\<newline>''
     @ ''}\<newline>''
     @ ''\<newline>''
     @ ''CRITICAL REQUIREMENTS:\<newline>''
     @ ''1. The output MUST follow this EXACT JSON structure - do not change field names or structure\<newline>''
     @ ''2. REQUIRED fields: "first_name" and "last_name" in personal_information section\<newline>''
     @ ''3. Extract ALL information possible from the CV content\<newline>''
     @ ''4. If a field is not available in the CV, use null or empty string as appropriate\<newline>''
     @ ''5. Ensure the response is valid JSON format\<newline>''
     @ ''6. Do not include any explanations or text outside the JSON structure\<newline>''
     @ ''7. Use arrays for multiple items (e.g., multiple skills, experiences)\<newline>''
     @ ''8. For dates, use YYYY-MM format for months, YYYY-MM-DD for specific dates\<newline>''
     @ ''9. For boolean values, use true/false\<newline>''
     @ ''10. If the CV content is unclear or incomplete, make reasonable inferences based on context\<newline>''
     @ ''11. The "end_date" can be "Present" for ongoing positions/education\<newline>''
     @ ''12. IMPORTANT: Your response MUST be ONLY the JSON object - no markdown, no explanations, no additional text\<newline>''
     @ ''13. CRITICAL: Ensure ALL object keys are properly quoted with double quotes (e.g., "name": not name:)\<newline>''
     @ ''14. Pay special attention to nested objects in arrays like references, work_experience, etc.\<newline>''
     @ ''15. BE CONCISE: Use brief, relevant descriptions. Avoid verbose explanations.\<newline>''
     @ ''16. PRIORITIZE: Focus on the most important information if space is limited.\<newline>''
     @ ''17. Work experience should be in reverse chronological order.\<newline>''
     @ ''\<newline>''
     @ ''Please provide ONLY the JSON response without any additional text, markdown formatting, or explanations.\<newline>''
     @ ''\<newline>''
     @ ''REMEMBER: The API is configured to expect JSON format only. Any non-JSON content will cause parsing errors.''\<close>

text \<open>\<open>_create_cv_prompt\<close>.\<close>

definition create_cv_prompt :: "string \<Rightarrow> string \<Rightarrow> string" where
  \<open>create_cv_prompt filename text_content =
     (if length text_content > 20000 then
        ''Please analyze the following CV document and extract detailed information into a structured JSON format.\<newline>''
        @ ''This is a long CV document - focus on extracting ALL available information while maintaining accuracy.\<newline>''
        @ ''\<newline>''
        @ ''Document: '' @ filename @ ''\<newline>''
        @ ''Text Length: '' @ str_of_nat (length text_content) @ '' characters\<newline>''
        @ ''\<newline>''
        @ ''CV Content:\<newline>''
        @ text_content @ ''\<newline>''
        @ ''\<newline>''
        @ ''IMPORTANT: You MUST output the CV data in EXACTLY this JSON format. Do not modify the structure or field names.\<newline>''
        @ ''Since this is a long document, ensure you capture ALL sections and details present.''
      else
        ''Please analyze the following CV document and extract detailed information into a structured JSON format.\<newline>''
        @ ''\<newline>''
        @ ''Document: '' @ filename @ ''\<newline>''
        @ ''\<newline>''
        @ ''CV Content:\<newline>''
        @ text_content @ ''\<newline>''
        @ ''\<newline>''
        @ ''IMPORTANT: You MUST output the CV data in EXACTLY this JSON format. Do not modify the structure or field names.'')
     @ CV_PROMPT_FORMAT\<close>

section \<open>The orchestrator\<close>

record extraction =
  ai_data :: json
  model_used :: string
  processing_duration_ms :: int
  success :: bool

text \<open>
  The body of the \<open>try\<close> in the loop of \<open>_process_cv_single_request\<close>: one model's
  attempt, with the exception that ends it or the parsed and validated result.
\<close>

definition attempt_model ::
    "ai_processor \<Rightarrow> parser \<Rightarrow> transport \<Rightarrow> string \<Rightarrow> string \<Rightarrow> string
       \<Rightarrow> event list \<times> (error + json)" where
  "attempt_model self loads post filename text_content model =
     (let prompt = create_cv_prompt filename text_content;
          (call_log, ai_response_info) = call_openrouter_api self post prompt model
      in case ai_response_info of
           Inl e \<Rightarrow> (call_log, Inl e)
         | Inr info \<Rightarrow>
             (let (parse_log, parsed) =
                    parse_ai_response self loads post (info_content info) prompt model
              in case parsed of
                   Inl e \<Rightarrow> (call_log @ parse_log, Inl e)
                 | Inr result \<Rightarrow>
                     (call_log @ parse_log,
                      (case result of
                         JObj items \<Rightarrow>
                           if map_of items ''personal_information'' = None
                           then Inl MissingPersonalInformation
                           else Inr result
                       | _ \<Rightarrow> Inl (NotDictionary (type_name result))))))"

text \<open>
  The loop \<open>for i, model in enumerate(models_to_try)\<close>, on the models still to try and
  with \<open>last_error\<close>: the first success, or the last error once the list is used up.
\<close>

fun try_models ::
    "ai_processor \<Rightarrow> parser \<Rightarrow> transport \<Rightarrow> string \<Rightarrow> string \<Rightarrow> string list \<Rightarrow> error option
       \<Rightarrow> event list \<times> (error option + extraction)" where
  "try_models self loads post filename text_content [] last_error = ([], Inl last_error)"
| "try_models self loads post filename text_content (model # models) last_error =
     (let (log, outcome) = attempt_model self loads post filename text_content model
      in case outcome of
           Inr result \<Rightarrow>
             (log @ [ModelSucceeded model],
              Inr \<lparr>ai_data = result, model_used = model, processing_duration_ms = 0,
                   success = True\<rparr>)
         | Inl e \<Rightarrow>
             (let (rest_log, rest) =
                    try_models self loads post filename text_content models (Some e)
              in (log @ [ModelFailed model e] @ rest_log, rest)))"

text \<open>
  \<open>getattr(last_error, 'raw_response', None)\<close>: only the exception of the failed
  repairs has the attribute.
\<close>

fun raw_response_of :: "error option \<Rightarrow> string option" where
  "raw_response_of (Some (RepairsFailed raw)) = Some raw"
| "raw_response_of e = None"

text \<open>
  \<open>_process_cv_single_request\<close>. Its parameter \<open>model\<close> is never read: the loop variable
  of the same name replaces it, and the loop walks the whole list of models.
\<close>

definition process_cv_single_request ::
    "ai_processor \<Rightarrow> parser \<Rightarrow> transport \<Rightarrow> string \<Rightarrow> string \<Rightarrow> string
       \<Rightarrow> event list \<times> (error + extraction)" where
  "process_cv_single_request self loads post filename text_content model =
     (let models_to_try =
            primary_model self # (if enable_fallback_models self then fallback_models self else []);
          (log, outcome) = try_models self loads post filename text_content models_to_try None
      in case outcome of
           Inr found \<Rightarrow> (log, Inr found)
         | Inl last_error \<Rightarrow>
             (log,
              Inl (AllModelsFailed last_error (raw_response_of last_error) filename
                     (if length text_content > 500 then take 500 text_content @ ''...''
                      else text_content)
                     models_to_try)))"

text \<open>The loop over the fallback models in \<open>process_cv_to_json\<close>.\<close>

fun try_fallbacks ::
    "ai_processor \<Rightarrow> parser \<Rightarrow> transport \<Rightarrow> string \<Rightarrow> string \<Rightarrow> string list
       \<Rightarrow> event list \<times> extraction option" where
  "try_fallbacks self loads post filename text_content [] = ([], None)"
| "try_fallbacks self loads post filename text_content (fallback_model # models) =
     (let (log, outcome) =
            process_cv_single_request self loads post filename text_content fallback_model
      in case outcome of
           Inr ai_response_info \<Rightarrow>
             (log,
              Some \<lparr>ai_data = ai_data ai_response_info, model_used = model_used ai_response_info,
                    processing_duration_ms = processing_duration_ms ai_response_info,
                    success = True\<rparr>)
         | Inl fallback_error \<Rightarrow>
             (let (rest_log, rest) = try_fallbacks self loads post filename text_content models
              in (log @ rest_log, rest)))"

text \<open>\<open>process_cv_to_json\<close>.\<close>

definition process_cv_to_json ::
    "ai_processor \<Rightarrow> parser \<Rightarrow> transport \<Rightarrow> string \<Rightarrow> string
       \<Rightarrow> event list \<times> (error + extraction)" where
  "process_cv_to_json self loads post filename text_content =
     (let (log, outcome) =
            process_cv_single_request self loads post filename text_content (primary_model self)
      in case outcome of
           Inr ai_response_info \<Rightarrow>
             (log,
              Inr \<lparr>ai_data = ai_data ai_response_info, model_used = model_used ai_response_info,
                   processing_duration_ms = processing_duration_ms ai_response_info,
                   success = True\<rparr>)
         | Inl primary_error \<Rightarrow>
             if \<not> enable_fallback_models self then (log, Inl primary_error)
             else
               (let (fallback_log, found) =
                      try_fallbacks self loads post filename text_content (fallback_models self)
                in case found of
                     Some result \<Rightarrow> (log @ fallback_log, Inr result)
                   | None \<Rightarrow> (log @ fallback_log, Inl (AllAIModelsFailed primary_error))))"

text \<open>The models for which a completion request was posted, in order.\<close>

fun api_calls :: "event list \<Rightarrow> string list" where
  "api_calls [] = []"
| "api_calls (ApiCall model # log) = model # api_calls log"
| "api_calls (e # log) = api_calls log"

text \<open>The per-model failures in order.\<close>

fun model_failures :: "event list \<Rightarrow> (string \<times> error) list" where
  "model_failures [] = []"
| "model_failures (ModelFailed model e # log) = (model, e) # model_failures log"
| "model_failures (e # log) = model_failures log"

definition default_processor :: ai_processor where
  "default_processor =
     \<lparr>primary_model = ''anthropic/claude-3.5-sonnet'',
      fallback_models = [''openai/gpt-4o'', ''anthropic/claude-3-haiku'',
                         ''meta-llama/llama-3.1-8b-instruct''],
      model_token_limits = MODEL_TOKEN_LIMITS,
      enable_fallback_models = True\<rparr>"

section \<open>Predicates used to state the properties\<close>

text \<open>
  A text has no stray closer when, reading it from the left, neither counter of the
  depth-tracking scan ever falls below zero.
\<close>

fun never_negative :: "string \<Rightarrow> int \<Rightarrow> int \<Rightarrow> bool" where
  "never_negative [] brace_count bracket_count = True"
| "never_negative (c # cs) brace_count bracket_count =
     (0 \<le> brace_step c brace_count \<and> 0 \<le> bracket_step c bracket_count
      \<and> never_negative cs (brace_step c brace_count) (bracket_step c bracket_count))"

definition no_stray_closers :: "string \<Rightarrow> bool" where
  "no_stray_closers s = never_negative s 0 0"

text \<open>
  The repair engine in the words of the specification: strategies tried in a fixed
  order, each on the full original text, up to the first one whose text parses and passes
  validation. \<open>strategy_output\<close> is the text a strategy makes of the raw text, if any.
\<close>

datatype strategy = KeyQuoting | ExtractionByMatchingBraces | CompletionByClosing

fun strategy_event :: "strategy \<Rightarrow> event" where
  "strategy_event KeyQuoting = ApproachFixCommonIssues"
| "strategy_event ExtractionByMatchingBraces = ApproachExtractValidJson"
| "strategy_event CompletionByClosing = ApproachCompleteTruncated"

definition nonempty_output :: "error + string option \<Rightarrow> string option" where
  "nonempty_output r =
     (case r of
        Inr (Some t) \<Rightarrow> if t = [] then None else Some t
      | _ \<Rightarrow> None)"

fun strategy_output :: "parser \<Rightarrow> strategy \<Rightarrow> string \<Rightarrow> string option" where
  "strategy_output loads KeyQuoting raw = Some (fix_common_json_issues raw)"
| "strategy_output loads ExtractionByMatchingBraces raw =
     nonempty_output (extract_valid_json loads raw)"
| "strategy_output loads CompletionByClosing raw =
     nonempty_output (complete_truncated_json loads raw)"

definition parse_and_validate :: "parser \<Rightarrow> string \<Rightarrow> json option" where
  "parse_and_validate loads t =
     (case loads t of
        Inl e \<Rightarrow> None
      | Inr result \<Rightarrow>
          (case validate_and_return_result result of
             Inl e \<Rightarrow> None
           | Inr validated \<Rightarrow> Some validated))"

fun apply_in_order :: "parser \<Rightarrow> strategy list \<Rightarrow> string \<Rightarrow> event list \<times> json option" where
  "apply_in_order loads [] raw = ([], None)"
| "apply_in_order loads (st # sts) raw =
     (case (case strategy_output loads st raw of
              None \<Rightarrow> None
            | Some t \<Rightarrow> parse_and_validate loads t) of
        Some validated \<Rightarrow> ([strategy_event st], Some validated)
      | None \<Rightarrow>
          (let (log, found) = apply_in_order loads sts raw
           in (strategy_event st # log, found)))"

text \<open>
  The truncation condition in the words of the specification: the provider's flag, or
  no closing brace at the end of the stripped text, or a scan that never returns to depth
  zero.
\<close>

definition spec_truncated :: "string option \<Rightarrow> string \<Rightarrow> bool" where
  "spec_truncated finish_reason text =
     (finish_reason = Some ''length'' \<or> \<not> endswith (strip text) ''}''
      \<or> find_last_complete_structure text = 0)"

text \<open>
  Two remote APIs used as examples: every request is answered with status 500; and the
  same, except that requests for the primary model of the default configuration are
  answered with status 429.
\<close>

definition all_down :: transport where
  "all_down req = Inl (ApiError 500 ''down'')"

definition primary_rate_limited :: transport where
  "primary_rate_limited req =
     (if req_model req = ''anthropic/claude-3.5-sonnet'' then Inl (ApiError 429 ''rate limit'')
      else Inl (ApiError 500 ''down''))"

text \<open>
  The models of a list up to and including the first one that succeeds: what a walk
  through the list has invoked when it stops at the first success.
\<close>

fun models_until_success :: "(string \<Rightarrow> bool) \<Rightarrow> string list \<Rightarrow> string list" where
  "models_until_success succeeds [] = []"
| "models_until_success succeeds (model # models) =
     (if succeeds model then [model] else model # models_until_success succeeds models)"

text \<open>The offsets of a text at which both counters stand at zero.\<close>

definition complete_offsets :: "string \<Rightarrow> nat set" where
  "complete_offsets s = {i. i \<le> length s \<and> balanced (take i s)}"

text \<open>
  The literal characters of a pattern, and the patterns whose repetitions are all
  \<open>\s*\<close>: what a match of such a pattern consumes is whitespace, its literal characters
  and the text of its group.
\<close>

fun literal_chars :: "item list \<Rightarrow> string" where
  "literal_chars [] = []"
| "literal_chars (Lit c # rest) = c # literal_chars rest"
| "literal_chars (i # rest) = literal_chars rest"

fun whitespace_stars :: "item list \<Rightarrow> bool" where
  "whitespace_stars [] = True"
| "whitespace_stars (Star k # rest) = (k = Whitespace \<and> whitespace_stars rest)"
| "whitespace_stars (i # rest) = whitespace_stars rest"

text \<open>The four characters the depth-tracking scan counts.\<close>

definition is_bracket :: "char \<Rightarrow> bool" where
  "is_bracket d = (d = CHR ''{'' \<or> d = CHR ''}'' \<or> d = CHR ''['' \<or> d = CHR '']'')"

section \<open>Properties of the scan\<close>

lemma brace_depth_Nil [simp]: "brace_depth [] = 0"
  by (simp add: brace_depth_def count_char_def)

lemma bracket_depth_Nil [simp]: "bracket_depth [] = 0"
  by (simp add: bracket_depth_def count_char_def)

lemma balanced_Nil [simp]: "balanced []"
  by (simp add: balanced_def)

lemma brace_depth_snoc: "brace_depth (pre @ [c]) = brace_step c (brace_depth pre)"
  by (simp add: brace_depth_def count_char_def brace_step_def)

lemma bracket_depth_snoc: "bracket_depth (pre @ [c]) = bracket_step c (bracket_depth pre)"
  by (simp add: bracket_depth_def count_char_def bracket_step_def)

lemma complete_offsets_finite: "finite (complete_offsets s)"
proof -
  have "complete_offsets s \<subseteq> {..length s}"
    by (auto simp: complete_offsets_def)
  then show ?thesis
    by (rule finite_subset) simp
qed

lemma complete_offsets_zero: "0 \<in> complete_offsets s"
  by (simp add: complete_offsets_def)

lemma complete_offsets_snoc:
  "complete_offsets (pre @ [c]) =
     complete_offsets pre \<union> (if balanced (pre @ [c]) then {Suc (length pre)} else {})"
proof -
  have small: "take i (pre @ [c]) = take i pre" if "i \<le> length pre" for i
    using that by simp
  have top: "i \<le> Suc (length pre) \<Longrightarrow> \<not> i \<le> length pre \<Longrightarrow> i = Suc (length pre)" for i
    by arith
  show ?thesis
    unfolding complete_offsets_def
    by (auto simp: small dest: top)
qed

lemma Max_complete_offsets_snoc:
  "Max (complete_offsets (pre @ [c])) =
     (if balanced (pre @ [c]) then Suc (length pre) else Max (complete_offsets pre))"
proof (cases "balanced (pre @ [c])")
  case True
  have bound: "i \<le> length pre" if "i \<in> complete_offsets pre" for i
    using that by (simp add: complete_offsets_def)
  have "Max (insert (Suc (length pre)) (complete_offsets pre)) = Suc (length pre)"
  proof (rule Max_eqI)
    show "finite (insert (Suc (length pre)) (complete_offsets pre))"
      by (simp add: complete_offsets_finite)
    show "y \<le> Suc (length pre)" if "y \<in> insert (Suc (length pre)) (complete_offsets pre)" for y
      using that bound by fastforce
    show "Suc (length pre) \<in> insert (Suc (length pre)) (complete_offsets pre)"
      by simp
  qed
  with True show ?thesis
    by (simp add: complete_offsets_snoc)
next
  case False
  then show ?thesis
    by (simp add: complete_offsets_snoc)
qed

lemma scan_structure_invariant:
  "scan_structure cs (length pre) (brace_depth pre) (bracket_depth pre)
     (Max (complete_offsets pre)) = Max (complete_offsets (pre @ cs))"
proof (induction cs arbitrary: pre)
  case Nil
  show ?case by simp
next
  case (Cons c cs)
  have step: "scan_structure cs (length (pre @ [c])) (brace_depth (pre @ [c]))
          (bracket_depth (pre @ [c])) (Max (complete_offsets (pre @ [c])))
        = Max (complete_offsets ((pre @ [c]) @ cs))"
    by (rule Cons.IH)
  have last: "(if brace_step c (brace_depth pre) = 0 \<and> bracket_step c (bracket_depth pre) = 0
        then length pre + 1 else Max (complete_offsets pre))
      = Max (complete_offsets (pre @ [c]))"
    by (simp add: Max_complete_offsets_snoc balanced_def brace_depth_snoc bracket_depth_snoc)
  have "scan_structure (c # cs) (length pre) (brace_depth pre) (bracket_depth pre)
          (Max (complete_offsets pre))
        = scan_structure cs (length pre + 1) (brace_step c (brace_depth pre))
            (bracket_step c (bracket_depth pre)) (Max (complete_offsets (pre @ [c])))"
    by (simp only: scan_structure.simps Let_def last)
  also have "\<dots> = Max (complete_offsets ((pre @ [c]) @ cs))"
    using step by (simp add: brace_depth_snoc bracket_depth_snoc)
  finally show ?case
    by simp
qed

lemma complete_offsets_Nil: "complete_offsets [] = {0}"
  by (auto simp: complete_offsets_def)

lemma find_last_complete_structure_Max:
  "find_last_complete_structure s = Max (complete_offsets s)"
  using scan_structure_invariant [of s "[]"]
  by (simp add: find_last_complete_structure_def complete_offsets_Nil)

text \<open>
  C10. For every text \<open>s\<close>, \<open>_find_last_complete_structure\<close> returns the greatest
  offset \<open>i\<close> such that, after the first \<open>i\<close> characters, the count of opening minus
  closing braces and the count of opening minus closing brackets are both zero (the
  offset 0 always qualifies, so the result is 0 when no later one does); hence the prefix
  it designates has as many opening as closing braces and as many opening as closing
  brackets.
\<close>

theorem find_last_complete_structure_greatest:
  "find_last_complete_structure s
     = Max {i. i \<le> length s \<and> brace_depth (take i s) = 0 \<and> bracket_depth (take i s) = 0}
   \<and> find_last_complete_structure s \<le> length s
   \<and> count_char (take (find_last_complete_structure s) s) (CHR ''{'')
       = count_char (take (find_last_complete_structure s) s) (CHR ''}'')
   \<and> count_char (take (find_last_complete_structure s) s) (CHR ''['')
       = count_char (take (find_last_complete_structure s) s) (CHR '']'')"
proof -
  let ?r = "find_last_complete_structure s"
  have eq: "?r = Max (complete_offsets s)"
    by (rule find_last_complete_structure_Max)
  have "Max (complete_offsets s) \<in> complete_offsets s"
    using complete_offsets_finite complete_offsets_zero by (metis Max_in empty_iff)
  then have mem: "?r \<in> complete_offsets s"
    by (simp add: eq)
  then have le: "?r \<le> length s" and bal: "balanced (take ?r s)"
    by (simp_all add: complete_offsets_def)
  from bal have "count_char (take ?r s) (CHR ''{'') = count_char (take ?r s) (CHR ''}'')"
    and "count_char (take ?r s) (CHR ''['') = count_char (take ?r s) (CHR '']'')"
    by (simp_all add: balanced_def brace_depth_def bracket_depth_def)
  moreover have "?r = Max {i. i \<le> length s \<and> brace_depth (take i s) = 0
      \<and> bracket_depth (take i s) = 0}"
    using eq by (simp add: complete_offsets_def balanced_def)
  ultimately show ?thesis
    using le by simp
qed

section \<open>Properties of the token budget\<close>

text \<open>
  C9, as stated, at a model of the configured table: for the 8192-token model and a
  prompt of 24000 characters the budget is the floor, 2000, which exceeds the context
  left after the prompt and the safety buffer, 8192 - 6000 - 1000 = 1192.
\<close>

theorem calculate_max_tokens_exceeds_context:
  "calculate_max_tokens MODEL_TOKEN_LIMITS ''meta-llama/llama-3.1-8b-instruct'' 24000 = 2000
   \<and> model_limit_of MODEL_TOKEN_LIMITS ''meta-llama/llama-3.1-8b-instruct''
         - 24000 div 4 - SAFETY_BUFFER_TOKENS = 1192
   \<and> \<not> calculate_max_tokens MODEL_TOKEN_LIMITS ''meta-llama/llama-3.1-8b-instruct'' 24000
         \<le> model_limit_of MODEL_TOKEN_LIMITS ''meta-llama/llama-3.1-8b-instruct''
             - 24000 div 4 - SAFETY_BUFFER_TOKENS"
  by (simp add: calculate_max_tokens_def model_limit_of_def MODEL_TOKEN_LIMITS_def
      SAFETY_BUFFER_TOKENS_def MIN_MAX_TOKENS_def)

text \<open>
  C9, amended. For every limit table, model name and prompt length the budget is never
  below the floor \<open>MIN_MAX_TOKENS\<close>, and never above the larger of that floor and the
  context left (the model's limit, minus a quarter of the prompt length rounded down,
  minus the safety buffer): the floor is applied last and wins over the cap. The limit of
  a model the table does not know is 8192.
\<close>

theorem calculate_max_tokens_bounds:
  "MIN_MAX_TOKENS \<le> calculate_max_tokens limits model prompt_length
   \<and> calculate_max_tokens limits model prompt_length
       \<le> max MIN_MAX_TOKENS
            (model_limit_of limits model - prompt_length div 4 - SAFETY_BUFFER_TOKENS)
   \<and> model_limit_of limits model = (case limits model of Some limit \<Rightarrow> limit | None \<Rightarrow> 8192)"
  by (simp add: calculate_max_tokens_def model_limit_of_def Let_def)

section \<open>Properties of the truncation check\<close>

lemma truncation_check_length:
  "truncation_check (Some ''length'') text
     = (let response1 = fix_truncated_json text
        in if \<not> endswith (strip response1) ''}''
           then ([WarnTruncatedByLength, WarnNoClosingBrace], fix_truncated_json response1)
           else ([WarnTruncatedByLength], response1))"
  by (simp add: truncation_check_def Let_def)

lemma truncation_check_other:
  "finish_reason \<noteq> Some ''length'' \<Longrightarrow>
   truncation_check finish_reason text
     = (if \<not> endswith (strip text) ''}''
        then ([WarnNoClosingBrace], fix_truncated_json text)
        else ([], text))"
  by (simp add: truncation_check_def Let_def)

text \<open>
  C2, as stated, at the text \<open>{"a": {"b": 1}\<close> with the finish reason \<open>stop\<close>: the
  text ends with a closing brace, so nothing is reported and the text is handed on as it
  is, although the scan never returns to zero depth (condition (c) of the specification
  holds) and one brace is still open at the end of the text.
\<close>

theorem truncation_check_misses_open_brace:
  \<open>spec_truncated (Some ''stop'') ''{"a": {"b": 1}''
   \<and> \<not> reports_truncated (Some ''stop'') ''{"a": {"b": 1}''
   \<and> truncation_check (Some ''stop'') ''{"a": {"b": 1}'' = ([], ''{"a": {"b": 1}'')
   \<and> find_last_complete_structure ''{"a": {"b": 1}'' = 0
   \<and> brace_depth ''{"a": {"b": 1}'' = 1\<close>
  by (simp add: spec_truncated_def reports_truncated_def truncation_check_def endswith_def
      strip_def lstrip_def rstrip_def is_space_def find_last_complete_structure_def
      brace_step_def bracket_step_def brace_depth_def count_char_def)

text \<open>
  C2, amended. The check of \<open>_call_openrouter_api\<close> reports a response as truncated
  exactly when the provider's finish reason is \<open>length\<close> or the stripped text does not
  end with a closing brace; it runs no depth scan of its own. A text that is not reported
  is handed on unchanged, and its stripped form ends with a closing brace (its depth at
  the end need not be zero).
\<close>

theorem truncation_check_reports_iff:
  "(reports_truncated finish_reason text
      \<longleftrightarrow> finish_reason = Some ''length'' \<or> \<not> endswith (strip text) ''}'')
   \<and> (\<not> reports_truncated finish_reason text \<longrightarrow>
        snd (truncation_check finish_reason text) = text \<and> endswith (strip text) ''}'')"
proof (cases "finish_reason = Some ''length''")
  case True
  then show ?thesis
    by (simp add: reports_truncated_def truncation_check_length Let_def)
next
  case False
  then show ?thesis
    by (simp add: reports_truncated_def truncation_check_other)
qed

theorem truncation_check_reports_iff_witness:
  \<open>\<not> reports_truncated (Some ''stop'') ''{"a": 1} ''
   \<and> snd (truncation_check (Some ''stop'') ''{"a": 1} '') = ''{"a": 1} ''
   \<and> endswith (strip ''{"a": 1} '') ''}''\<close>
proof -
  have e: \<open>endswith (strip ''{"a": 1} '') ''}''\<close>
    by (simp add: endswith_def strip_def lstrip_def rstrip_def is_space_def)
  show ?thesis
    using truncation_check_reports_iff [of \<open>Some ''stop''\<close> \<open>''{"a": 1} ''\<close>] e
    by simp
qed

section \<open>Properties of schema validation\<close>

lemma check_personal_fields_dict:
  "\<exists>ws. check_personal_fields (JObj items) fs = Inr ws"
proof (induction fs)
  case Nil
  show ?case by simp
next
  case (Cons f fs)
  obtain field expected_type where f: "f = (field, expected_type)"
    by (cases f)
  from Cons obtain ws where ws: "check_personal_fields (JObj items) fs = Inr ws"
    by blast
  show ?case
    by (cases "map_of items field") (simp_all add: f ws)
qed

lemma validate_required_fields_Inr_dict:
  assumes "validate_required_fields data = Inr u"
  shows "\<exists>items. map_of data ''personal_information'' = Some (JObj items)"
proof (cases "map_of data ''personal_information''")
  case None
  with assms show ?thesis
    by (simp add: validate_required_fields_def)
next
  case (Some personal_info)
  with assms show ?thesis
    by (cases personal_info) (simp_all add: validate_required_fields_def)
qed

lemma validate_json_format_after_required:
  assumes "validate_required_fields data = Inr u"
  shows "\<exists>ws. validate_json_format data = Inr ws"
proof -
  from assms obtain items where pi: "map_of data ''personal_information'' = Some (JObj items)"
    using validate_required_fields_Inr_dict by blast
  obtain ws where "check_personal_fields (JObj items) expected_personal_fields = Inr ws"
    using check_personal_fields_dict by blast
  then show ?thesis
    by (simp add: validate_json_format_def pi)
qed

lemma validate_required_fields_fails_iff:
  "isl (validate_required_fields data)
     = (case map_of data ''personal_information'' of
          None \<Rightarrow> True
        | Some (JObj items) \<Rightarrow>
            absent_or_falsy items ''first_name'' \<or> absent_or_falsy items ''last_name''
        | Some _ \<Rightarrow> True)"
proof (cases "map_of data ''personal_information''")
  case None
  then show ?thesis
    by (simp add: validate_required_fields_def)
next
  case (Some personal_info)
  show ?thesis
  proof (cases personal_info)
    case (JObj items)
    show ?thesis
      by (simp add: validate_required_fields_def Some JObj absent_or_falsy_def
          split: option.split)
  qed (simp_all add: validate_required_fields_def Some)
qed

text \<open>
  C6, as stated, at the candidate
  \<open>{"personal_information": {"first_name": 0, "last_name": "Cruz"}}\<close>: the first name is
  present and is not empty, and the section and the last name are there, yet the check
  fails, because it tests the truth value of the field.
\<close>

theorem validate_required_fields_rejects_zero:
  "validate_required_fields
     [(''personal_information'',
       JObj [(''first_name'', JInt 0), (''last_name'', JStr ''Cruz'')])]
     = Inl (MissingField ''first_name'')
   \<and> \<not> spec_required_failure
     [(''personal_information'',
       JObj [(''first_name'', JInt 0), (''last_name'', JStr ''Cruz'')])]"
  by (simp add: validate_required_fields_def spec_required_failure_def
      spec_absent_or_empty_def)

text \<open>
  C6, amended. For every parsed candidate object, required-field validation fails if and
  only if the candidate lacks the \<open>personal_information\<close> section, or that section is not
  an object, or its \<open>first_name\<close> or \<open>last_name\<close> is absent or has a false truth value
  (null, false, a zero number, an empty string, array or object). Nothing else of the
  candidate matters: whenever the required fields pass, the format check that follows
  ends with warnings only, so the whole validation fails exactly when the required-field
  check does, and hands the candidate back otherwise.
\<close>

theorem validate_required_fields_iff:
  "isl (validate_required_fields data)
     = (case map_of data ''personal_information'' of
          None \<Rightarrow> True
        | Some (JObj items) \<Rightarrow>
            absent_or_falsy items ''first_name'' \<or> absent_or_falsy items ''last_name''
        | Some _ \<Rightarrow> True)
   \<and> (validate_required_fields data = Inr () \<longrightarrow> (\<exists>ws. validate_json_format data = Inr ws))
   \<and> validate_and_return_result (JObj data)
       = (case validate_required_fields data of Inl e \<Rightarrow> Inl e | Inr u \<Rightarrow> Inr (JObj data))"
proof -
  have third: "validate_and_return_result (JObj data)
       = (case validate_required_fields data of Inl e \<Rightarrow> Inl e | Inr u \<Rightarrow> Inr (JObj data))"
  proof (cases "validate_required_fields data")
    case (Inl e)
    then show ?thesis
      by (simp add: validate_and_return_result_def)
  next
    case (Inr u)
    then obtain ws where "validate_json_format data = Inr ws"
      using validate_json_format_after_required by blast
    with Inr show ?thesis
      by (simp add: validate_and_return_result_def)
  qed
  show ?thesis
    using validate_required_fields_fails_iff [of data]
      validate_json_format_after_required [of data "()"] third
    by blast
qed

theorem validate_required_fields_iff_witness:
  "validate_required_fields
     [(''personal_information'',
       JObj [(''first_name'', JStr ''Ana''), (''last_name'', JStr ''Cruz''),
             (''emails'', JInt 5)]),
      (''education'', JStr ''none'')] = Inr ()
   \<and> (\<exists>ws. validate_json_format
     [(''personal_information'',
       JObj [(''first_name'', JStr ''Ana''), (''last_name'', JStr ''Cruz''),
             (''emails'', JInt 5)]),
      (''education'', JStr ''none'')] = Inr ws)"
proof -
  let ?d = "[(''personal_information'',
       JObj [(''first_name'', JStr ''Ana''), (''last_name'', JStr ''Cruz''),
             (''emails'', JInt 5)]),
      (''education'', JStr ''none'')]"
  have r: "validate_required_fields ?d = Inr ()"
    by (simp add: validate_required_fields_def)
  show ?thesis
    using validate_required_fields_iff [of ?d] r by blast
qed

section \<open>Properties of the closing repairs\<close>

lemma brace_depth_append: "brace_depth (a @ b) = brace_depth a + brace_depth b"
  by (simp add: brace_depth_def count_char_def)

lemma bracket_depth_append: "bracket_depth (a @ b) = bracket_depth a + bracket_depth b"
  by (simp add: bracket_depth_def count_char_def)

lemma count_list_replicate: "count_list (replicate n x) y = (if x = y then n else 0)"
  by (induction n) auto

lemma depth_replicate_brace:
  "brace_depth (replicate n (CHR ''}'')) = - int n"
  "bracket_depth (replicate n (CHR ''}'')) = 0"
  by (simp_all add: brace_depth_def bracket_depth_def count_char_def count_list_replicate)

lemma depth_replicate_bracket:
  "brace_depth (replicate n (CHR '']'')) = 0"
  "bracket_depth (replicate n (CHR '']'')) = - int n"
  by (simp_all add: brace_depth_def bracket_depth_def count_char_def count_list_replicate)

lemma brace_depth_Cons: "brace_depth (c # cs) = brace_step c 0 + brace_depth cs"
  by (simp add: brace_depth_def count_char_def brace_step_def)

lemma bracket_depth_Cons: "bracket_depth (c # cs) = bracket_step c 0 + bracket_depth cs"
  by (simp add: bracket_depth_def count_char_def bracket_step_def)

lemma brace_step_shift: "brace_step c b = b + brace_step c 0"
  by (simp add: brace_step_def)

lemma bracket_step_shift: "bracket_step c k = k + bracket_step c 0"
  by (simp add: bracket_step_def)

lemma never_negative_final:
  "never_negative cs b k \<Longrightarrow> 0 \<le> b \<Longrightarrow> 0 \<le> k
     \<Longrightarrow> 0 \<le> b + brace_depth cs \<and> 0 \<le> k + bracket_depth cs"
proof (induction cs arbitrary: b k)
  case Nil
  then show ?case by simp
next
  case (Cons c cs)
  from Cons.prems have nn: "never_negative cs (brace_step c b) (bracket_step c k)"
    and b': "0 \<le> brace_step c b" and k': "0 \<le> bracket_step c k"
    by simp_all
  from Cons.IH [OF nn b' k']
  have "0 \<le> brace_step c b + brace_depth cs \<and> 0 \<le> bracket_step c k + bracket_depth cs" .
  then show ?case
    using brace_step_shift [of c b] bracket_step_shift [of c k]
    by (simp add: brace_depth_Cons bracket_depth_Cons)
qed

lemma no_stray_closers_depths:
  "no_stray_closers s \<Longrightarrow> 0 \<le> brace_depth s \<and> 0 \<le> bracket_depth s"
  using never_negative_final [of s 0 0] by (simp add: no_stray_closers_def)

lemma closed_text_balanced:
  assumes "0 \<le> brace_depth t" "0 \<le> bracket_depth t"
  shows "balanced (t @ replicate (nat (bracket_depth t)) (CHR '']'')
           @ replicate (nat (brace_depth t)) (CHR ''}''))"
  using assms
  by (simp add: balanced_def brace_depth_append bracket_depth_append depth_replicate_brace
      depth_replicate_bracket)

lemma fix_truncated_json_cases:
  "fix_truncated_json s =
     (if find_last_complete_structure (strip s) > 0
      then take (find_last_complete_structure (strip s)) (strip s)
      else strip s @ replicate (nat (bracket_depth (strip s))) (CHR '']'')
             @ replicate (nat (brace_depth (strip s))) (CHR ''}''))"
  by (simp add: fix_truncated_json_def find_last_complete_structure_def Let_def
      brace_depth_def bracket_depth_def)

lemma complete_truncated_json_prefix:
  "find_last_complete_structure (strip s) \<noteq> 0 \<Longrightarrow>
   complete_truncated_json loads s
     = Inr (Some (take (find_last_complete_structure (strip s)) (strip s)))"
  by (simp add: complete_truncated_json_def Let_def)

lemma complete_truncated_json_closed:
  assumes "find_last_complete_structure (strip s) = 0"
    and "0 \<le> brace_depth (strip s)" "0 \<le> bracket_depth (strip s)"
    and "loads (strip s @ replicate (nat (bracket_depth (strip s))) (CHR '']'')
             @ replicate (nat (brace_depth (strip s))) (CHR ''}'')) = Inr v"
  shows "complete_truncated_json loads s
     = Inr (Some (strip s @ replicate (nat (bracket_depth (strip s))) (CHR '']'')
             @ replicate (nat (brace_depth (strip s))) (CHR ''}'')))"
  using assms
  by (simp add: complete_truncated_json_def Let_def brace_depth_def bracket_depth_def)

lemma take_last_complete_balanced:
  "balanced (take (find_last_complete_structure t) t)"
proof -
  have "Max (complete_offsets t) \<in> complete_offsets t"
    using complete_offsets_finite complete_offsets_zero by (metis Max_in empty_iff)
  then show ?thesis
    by (simp add: find_last_complete_structure_Max complete_offsets_def)
qed

text \<open>
  C3, amended. Both closing repairs strip the text first. When the stripped text has no
  stray closer and no offset above zero at which both depths are zero, they append
  exactly as many closing brackets as brackets are open and then exactly as many closing
  braces as braces are open: the result has depth zero at its end and the stripped text
  as its leading content (\<open>_complete_truncated_json\<close> returns it when it parses). When
  such an offset exists they append nothing and return the prefix of the stripped text
  that ends at the last such offset, which has depth zero as well.
\<close>

theorem closing_repair:
  "(no_stray_closers (strip s) \<and> find_last_complete_structure (strip s) = 0 \<longrightarrow>
      fix_truncated_json s
        = strip s @ replicate (nat (bracket_depth (strip s))) (CHR '']'')
            @ replicate (nat (brace_depth (strip s))) (CHR ''}'')
      \<and> balanced (fix_truncated_json s)
      \<and> (\<forall>v. loads (fix_truncated_json s) = Inr v \<longrightarrow>
            complete_truncated_json loads s = Inr (Some (fix_truncated_json s))))
   \<and> (find_last_complete_structure (strip s) \<noteq> 0 \<longrightarrow>
      fix_truncated_json s = take (find_last_complete_structure (strip s)) (strip s)
      \<and> complete_truncated_json loads s = Inr (Some (fix_truncated_json s))
      \<and> balanced (fix_truncated_json s))"
proof (intro conjI impI)
  assume h: "no_stray_closers (strip s) \<and> find_last_complete_structure (strip s) = 0"
  then have d: "0 \<le> brace_depth (strip s)" "0 \<le> bracket_depth (strip s)"
    using no_stray_closers_depths by blast+
  from h show eq: "fix_truncated_json s
        = strip s @ replicate (nat (bracket_depth (strip s))) (CHR '']'')
            @ replicate (nat (brace_depth (strip s))) (CHR ''}'')"
    by (simp add: fix_truncated_json_cases)
  show "balanced (fix_truncated_json s)"
    unfolding eq using d by (rule closed_text_balanced)
  show "\<forall>v. loads (fix_truncated_json s) = Inr v \<longrightarrow>
            complete_truncated_json loads s = Inr (Some (fix_truncated_json s))"
    unfolding eq using h d complete_truncated_json_closed by blast
next
  assume n: "find_last_complete_structure (strip s) \<noteq> 0"
  then show eq: "fix_truncated_json s = take (find_last_complete_structure (strip s)) (strip s)"
    by (simp add: fix_truncated_json_cases)
  show "complete_truncated_json loads s = Inr (Some (fix_truncated_json s))"
    unfolding eq using n by (rule complete_truncated_json_prefix)
  show "balanced (fix_truncated_json s)"
    unfolding eq by (rule take_last_complete_balanced)
qed

text \<open>
  C3, as stated, at the text \<open>{"a": 1}{"b": [\<close>: one brace and one bracket are open
  and there is no stray closer, yet nothing is appended; both repairs return the prefix
  \<open>{"a": 1}\<close>.
\<close>

theorem closing_repair_counterexample:
  \<open>no_stray_closers ''{"a": 1}{"b": [''
   \<and> brace_depth ''{"a": 1}{"b": ['' = 1
   \<and> bracket_depth ''{"a": 1}{"b": ['' = 1
   \<and> fix_truncated_json ''{"a": 1}{"b": ['' = ''{"a": 1}''
   \<and> complete_truncated_json json_loads ''{"a": 1}{"b": ['' = Inr (Some ''{"a": 1}'')
   \<and> fix_truncated_json ''{"a": 1}{"b": ['' \<noteq> ''{"a": 1}{"b": []}''\<close>
  by code_simp

theorem closing_repair_witness:
  \<open>fix_truncated_json ''{"a": [1, 2'' = ''{"a": [1, 2]}''
   \<and> balanced (fix_truncated_json ''{"a": [1, 2'')
   \<and> complete_truncated_json json_loads ''{"a": [1, 2'' = Inr (Some ''{"a": [1, 2]}'')
   \<and> fix_truncated_json ''{"a": 1} {'' = ''{"a": 1} ''
   \<and> complete_truncated_json json_loads ''{"a": 1} {'' = Inr (Some ''{"a": 1} '')\<close>
proof -
  have s1: \<open>strip ''{"a": [1, 2'' = ''{"a": [1, 2''\<close>
    and s2: \<open>strip ''{"a": 1} {'' = ''{"a": 1} {''\<close>
    by (simp_all add: strip_def lstrip_def rstrip_def is_space_def)
  have h1: \<open>no_stray_closers (strip ''{"a": [1, 2'')
      \<and> find_last_complete_structure (strip ''{"a": [1, 2'') = 0\<close>
    unfolding s1 by code_simp
  have d1: \<open>bracket_depth ''{"a": [1, 2'' = 1\<close> \<open>brace_depth ''{"a": [1, 2'' = 1\<close>
    by code_simp+
  have l1: \<open>json_loads ''{"a": [1, 2]}'' = Inr (JObj [(''a'', JArr [JInt 1, JInt 2])])\<close>
    by code_simp
  have h2: \<open>find_last_complete_structure (strip ''{"a": 1} {'') = 9\<close>
    unfolding s2 by code_simp
  have A: \<open>fix_truncated_json ''{"a": [1, 2''
        = strip ''{"a": [1, 2'' @ replicate (nat (bracket_depth (strip ''{"a": [1, 2''))) (CHR '']'')
            @ replicate (nat (brace_depth (strip ''{"a": [1, 2''))) (CHR ''}'')
      \<and> balanced (fix_truncated_json ''{"a": [1, 2'')
      \<and> (\<forall>v. json_loads (fix_truncated_json ''{"a": [1, 2'') = Inr v \<longrightarrow>
            complete_truncated_json json_loads ''{"a": [1, 2''
              = Inr (Some (fix_truncated_json ''{"a": [1, 2'')))\<close>
    using closing_repair [of \<open>''{"a": [1, 2''\<close> json_loads] h1 by blast
  from A have a1: \<open>fix_truncated_json ''{"a": [1, 2'' = ''{"a": [1, 2]}''\<close>
    by (simp add: s1 d1)
  from A have a2: \<open>balanced (fix_truncated_json ''{"a": [1, 2'')\<close>
    by blast
  from A l1 have a3: \<open>complete_truncated_json json_loads ''{"a": [1, 2''
      = Inr (Some ''{"a": [1, 2]}'')\<close>
    by (simp add: a1)
  have B: \<open>fix_truncated_json ''{"a": 1} {''
        = take (find_last_complete_structure (strip ''{"a": 1} {'')) (strip ''{"a": 1} {'')
      \<and> complete_truncated_json json_loads ''{"a": 1} {''
        = Inr (Some (fix_truncated_json ''{"a": 1} {''))\<close>
    using closing_repair [of \<open>''{"a": 1} {''\<close> json_loads] h2 by simp
  from B have b1: \<open>fix_truncated_json ''{"a": 1} {'' = ''{"a": 1} ''\<close>
    by (simp add: h2) (simp add: s2)
  from B have b2: \<open>complete_truncated_json json_loads ''{"a": 1} {'' = Inr (Some ''{"a": 1} '')\<close>
    by (simp add: b1)
  show ?thesis
    using a1 a2 a3 b1 b2 by blast
qed

section \<open>Properties of extraction and key quoting\<close>

lemma match_brace_bounds:
  "match_brace cs i bc = Some e \<Longrightarrow> i \<le> e \<and> e < i + length cs"
proof (induction cs arbitrary: i bc)
  case Nil
  then show ?case by simp
next
  case (Cons c cs)
  show ?case
  proof (cases "c = CHR ''{''")
    case True
    with Cons.prems have "match_brace cs (i + 1) (bc + 1) = Some e" by simp
    from Cons.IH [OF this] show ?thesis by simp
  next
    case False
    show ?thesis
    proof (cases "c = CHR ''}''")
      case True
      show ?thesis
      proof (cases "bc - 1 = 0")
        case True
        with Cons.prems \<open>c = CHR ''}''\<close> show ?thesis by simp
      next
        case False
        with Cons.prems \<open>c = CHR ''}''\<close>
        have "match_brace cs (i + 1) (bc - 1) = Some e" by simp
        from Cons.IH [OF this] show ?thesis by simp
      qed
    next
      case False
      with Cons.prems \<open>c \<noteq> CHR ''{''\<close> have "match_brace cs (i + 1) bc = Some e" by simp
      from Cons.IH [OF this] show ?thesis by simp
    qed
  qed
qed

lemma match_brace_shift:
  "match_brace cs i bc = Some e \<Longrightarrow> match_brace cs j bc = Some (e - i + j)"
proof (induction cs arbitrary: i j bc)
  case Nil
  then show ?case by simp
next
  case (Cons c cs)
  have step: "match_brace cs (i + 1) b = Some e \<Longrightarrow>
      match_brace cs (j + 1) b = Some (e - i + j)" for b
  proof -
    assume m: "match_brace cs (i + 1) b = Some e"
    from match_brace_bounds [OF m] have "i + 1 \<le> e" by simp
    then have "e - (i + 1) + (j + 1) = e - i + j" by arith
    with Cons.IH [OF m, of "j + 1"] show ?thesis by simp
  qed
  show ?case
  proof (cases "c = CHR ''{''")
    case True
    with Cons.prems step show ?thesis by simp
  next
    case False
    show ?thesis
    proof (cases "c = CHR ''}''")
      case True
      show ?thesis
      proof (cases "bc - 1 = 0")
        case True
        with Cons.prems \<open>c = CHR ''}''\<close> show ?thesis by simp
      next
        case False
        with Cons.prems \<open>c = CHR ''}''\<close> step show ?thesis by simp
      qed
    next
      case False
      with Cons.prems \<open>c \<noteq> CHR ''{''\<close> step show ?thesis by simp
    qed
  qed
qed

lemma match_brace_take:
  "match_brace cs i bc = Some e \<Longrightarrow> match_brace (take (e + 1 - i) cs) i bc = Some e"
proof (induction cs arbitrary: i bc)
  case Nil
  then show ?case by simp
next
  case (Cons c cs)
  have step: "match_brace cs (i + 1) b = Some e \<Longrightarrow>
      take (e + 1 - i) (c # cs) = c # take (e + 1 - (i + 1)) cs
      \<and> match_brace (take (e + 1 - (i + 1)) cs) (i + 1) b = Some e" for b
  proof -
    assume m: "match_brace cs (i + 1) b = Some e"
    from match_brace_bounds [OF m] have "i + 1 \<le> e" by simp
    then have "e + 1 - i = Suc (e + 1 - (i + 1))" by arith
    then have "take (e + 1 - i) (c # cs) = c # take (e + 1 - (i + 1)) cs" by simp
    with Cons.IH [OF m] show ?thesis by simp
  qed
  show ?case
  proof (cases "c = CHR ''{''")
    case True
    with Cons.prems have "match_brace cs (i + 1) (bc + 1) = Some e" by simp
    from step [OF this] True show ?thesis by simp
  next
    case False
    show ?thesis
    proof (cases "c = CHR ''}''")
      case True
      show ?thesis
      proof (cases "bc - 1 = 0")
        case True
        with Cons.prems \<open>c = CHR ''}''\<close> show ?thesis by simp
      next
        case False
        with Cons.prems \<open>c = CHR ''}''\<close>
        have "match_brace cs (i + 1) (bc - 1) = Some e" by simp
        from step [OF this] False \<open>c = CHR ''}''\<close> show ?thesis by simp
      qed
    next
      case False
      with Cons.prems \<open>c \<noteq> CHR ''{''\<close> have "match_brace cs (i + 1) bc = Some e" by simp
      from step [OF this] False \<open>c \<noteq> CHR ''{''\<close> show ?thesis by simp
    qed
  qed
qed

lemma takeWhile_shorter:
  "c \<in> set s \<Longrightarrow> length (takeWhile (\<lambda>x. x \<noteq> c) s) < length s"
  by (induction s) auto

lemma find_char_Some:
  assumes "find_char s c = Some n"
  shows "n < length s \<and> drop n s = c # drop (Suc n) s"
proof -
  from assms have mem: "c \<in> set s" and n: "n = length (takeWhile (\<lambda>x. x \<noteq> c) s)"
    by (simp_all add: find_char_def split: if_splits)
  from mem have lt: "n < length s"
    unfolding n by (rule takeWhile_shorter)
  then have "\<not> (s ! n \<noteq> c)"
    unfolding n by (rule nth_length_takeWhile)
  then have "s ! n = c" by simp
  with lt show ?thesis
    using Cons_nth_drop_Suc [of n s] by simp
qed

lemma find_char_head: "find_char (c # cs) c = Some 0"
  by (simp add: find_char_def)

lemma extract_valid_json_idempotent:
  assumes "extract_valid_json loads s = Inr (Some out)"
  shows "extract_valid_json loads out = Inr (Some out)"
proof -
  from assms obtain st where st: "find_char s (CHR ''{'') = Some st"
    by (auto simp: extract_valid_json_def split: option.splits)
  from assms st obtain e where e: "match_brace (drop st s) st 0 = Some e"
    by (auto simp: extract_valid_json_def split: option.splits)
  let ?cs = "drop st s"
  from assms st e have out: "out = take (e + 1 - st) ?cs"
    and ok: "\<exists>v. loads out = Inr v"
    by (auto simp: extract_valid_json_def Let_def split: sum.splits if_splits)
  from find_char_Some [OF st] have cs: "?cs = CHR ''{'' # drop (Suc st) s"
    by simp
  from match_brace_bounds [OF e] have b: "st \<le> e" "e < st + length ?cs"
    by simp_all
  then have len: "length out = e + 1 - st"
    unfolding out by simp
  from b have "e + 1 - st = Suc (e - st)" by arith
  then have hd_out: "out = CHR ''{'' # take (e - st) (drop (Suc st) s)"
    unfolding out by (subst cs) simp
  have "match_brace out st 0 = Some e"
    unfolding out using e by (rule match_brace_take)
  then have m0: "match_brace out 0 0 = Some (e - st)"
    using match_brace_shift [of out st 0 e 0] by simp
  have f0: "find_char out (CHR ''{'') = Some 0"
    by (subst hd_out) (rule find_char_head)
  have t: "take (Suc (e - st)) out = out"
    using len b by simp
  from ok obtain v where v: "loads out = Inr v" by blast
  show ?thesis
    by (simp add: extract_valid_json_def f0 m0 t v Let_def del: match_brace.simps)
qed

lemma match_items_needs_colon:
  "Lit (CHR '':'') \<in> set items \<Longrightarrow> CHR '':'' \<notin> set s \<Longrightarrow> match_items items s = None"
  by (induction items s rule: match_items.induct) auto

lemma re_sub_no_colon:
  "Lit (CHR '':'') \<in> set items \<Longrightarrow> CHR '':'' \<notin> set s \<Longrightarrow> re_sub c items repl s = s"
  by (induction s) (auto simp: match_items_needs_colon)

lemma fix_common_json_issues_no_colon:
  "CHR '':'' \<notin> set s \<Longrightarrow> fix_common_json_issues s = s"
  by (simp add: fix_common_json_issues_def re_sub_no_colon)

section \<open>Properties of completion applied twice\<close>

lemma match_items_count:
  "match_items items s = Some (g, n) \<Longrightarrow> whitespace_stars items \<Longrightarrow> \<not> is_space d
     \<Longrightarrow> n \<le> length s
         \<and> count_list (take n s) d = count_list g d + count_list (literal_chars items) d"
proof (induction items s arbitrary: g n rule: match_items.induct)
  case (1 s)
  then show ?case by simp
next
  case (2 c rest)
  then show ?case by simp
next
  case (3 c rest x xs)
  from "3.prems"(1) have xc: "x = c"
    by (simp split: if_splits)
  with "3.prems"(1) obtain n' where r: "match_items rest xs = Some (g, n')" and n: "n = Suc n'"
    by (cases "match_items rest xs") auto
  from "3.prems"(2) have ws: "whitespace_stars rest" by simp
  from "3.IH" [OF xc r ws "3.prems"(3)] xc n show ?case by simp
next
  case (4 k rest)
  then show ?case by simp
next
  case (5 k rest x xs)
  from "5.prems"(2) have k: "k = Whitespace" and ws: "whitespace_stars rest"
    by simp_all
  show ?case
  proof (cases "in_class k x")
    case False
    with "5.prems"(1) have r: "match_items rest (x # xs) = Some (g, n)" by simp
    from "5.IH"(3) [OF False r ws "5.prems"(3)] show ?thesis by simp
  next
    case True
    with k "5.prems"(3) have xd: "x \<noteq> d" by auto
    show ?thesis
    proof (cases "match_items (Star k # rest) xs")
      case None
      with True "5.prems"(1) have r: "match_items rest (x # xs) = Some (g, n)" by simp
      from None have a: "advance (match_items (Star k # rest) xs) = None" by simp
      from "5.IH"(2) [OF True a r ws "5.prems"(3)] show ?thesis by simp
    next
      case (Some p)
      obtain g' n' where p: "p = (g', n')" by (cases p)
      with Some True "5.prems"(1) have gn: "g = g'" "n = Suc n'" by simp_all
      from Some p gn have r: "match_items (Star k # rest) xs = Some (g, n')" by simp
      from "5.IH"(1) [OF True r "5.prems"(2) "5.prems"(3)] xd gn show ?thesis by simp
    qed
  qed
next
  case (6 k rest)
  then show ?case by simp
next
  case (7 k rest x xs)
  from "7.prems"(1) have c: "in_class k x"
    by (simp split: if_splits)
  with "7.prems"(1) obtain g' n' where r: "match_items (GroupMore k # rest) xs = Some (g', n')"
    and gn: "g = x # g'" "n = Suc n'"
    by (cases "match_items (GroupMore k # rest) xs") auto
  from "7.prems"(2) have ws: "whitespace_stars (GroupMore k # rest)" by simp
  from "7.IH" [OF c r ws "7.prems"(3)] gn show ?case by simp
next
  case (8 k rest)
  then show ?case by simp
next
  case (9 k rest x xs)
  from "9.prems"(2) have ws: "whitespace_stars rest" by simp
  show ?case
  proof (cases "in_class k x")
    case False
    with "9.prems"(1) have r: "match_items rest (x # xs) = Some (g, n)" by simp
    from "9.IH"(3) [OF False r ws "9.prems"(3)] show ?thesis by simp
  next
    case True
    show ?thesis
    proof (cases "match_items (GroupMore k # rest) xs")
      case None
      with True "9.prems"(1) have r: "match_items rest (x # xs) = Some (g, n)" by simp
      from None have a: "capture x (match_items (GroupMore k # rest) xs) = None" by simp
      from "9.IH"(2) [OF True a r ws "9.prems"(3)] show ?thesis by simp
    next
      case (Some p)
      obtain g' n' where p: "p = (g', n')" by (cases p)
      with Some True "9.prems"(1) have gn: "g = x # g'" "n = Suc n'" by simp_all
      from Some p have r: "match_items (GroupMore k # rest) xs = Some (g', n')" by simp
      from "9.IH"(1) [OF True r "9.prems"(2) "9.prems"(3)] gn show ?thesis by simp
    qed
  qed
qed

lemma count_list_take_drop:
  "count_list (take n xs) d + count_list (drop n xs) d = count_list xs d"
proof -
  have "count_list (take n xs @ drop n xs) d = count_list xs d" by simp
  then show ?thesis by (simp only: count_list_append)
qed

lemma re_sub_count:
  assumes ws: "whitespace_stars items" and d: "\<not> is_space d"
    and repl: "\<And>g. count_list (repl g) d
        = count_list (c # literal_chars items) d + count_list g d"
  shows "count_list (re_sub c items repl s) d = count_list s d"
proof (induction s rule: length_induct)
  case (1 s)
  show ?case
  proof (cases s)
    case Nil
    then show ?thesis by simp
  next
    case (Cons x xs)
    have tail: "count_list (re_sub c items repl xs) d = count_list xs d"
      using "1.IH" Cons by simp
    show ?thesis
    proof (cases "x = c")
      case False
      with Cons tail show ?thesis by simp
    next
      case True
      show ?thesis
      proof (cases "match_items items xs")
        case None
        with Cons True tail show ?thesis by auto
      next
        case (Some p)
        obtain g n where p: "p = (g, n)" by (cases p)
        from Some p have m: "match_items items xs = Some (g, n)" by simp
        from match_items_count [OF m ws d]
        have cnt: "count_list (take n xs) d = count_list g d + count_list (literal_chars items) d"
          by simp
        have "length (drop n xs) < length s"
          using Cons by simp
        with "1.IH" have rest: "count_list (re_sub c items repl (drop n xs)) d
            = count_list (drop n xs) d"
          by blast
        have "count_list (re_sub c items repl s) d
            = count_list (repl g) d + count_list (drop n xs) d"
          using Cons True m rest by auto
        also have "\<dots> = count_list [c] d + (count_list (take n xs) d + count_list (drop n xs) d)"
          using repl [of g] cnt by simp
        also have "\<dots> = count_list [c] d + count_list xs d"
          by (simp only: count_list_take_drop)
        finally show ?thesis
          using Cons True by auto
      qed
    qed
  qed
qed

lemma is_bracket_not_space: "is_bracket d \<Longrightarrow> \<not> is_space d"
  by (auto simp: is_bracket_def is_space_def)

lemma fix_common_json_issues_count:
  assumes "is_bracket d"
  shows "count_list (fix_common_json_issues s) d = count_list s d"
proof -
  have d: "\<not> is_space d"
    using assms by (rule is_bracket_not_space)
  have r1: \<open>count_list (re_sub (CHR ''['')
        [Star Whitespace, Lit (CHR ''{''), Star Whitespace, GroupPlus NotQuoteNorSpace,
         Lit (CHR '':'')] (\<lambda>g. ''[{ "'' @ g @ ''":'') t) d = count_list t d\<close> for t
    by (rule re_sub_count [OF _ d]) (use assms in \<open>auto simp: is_bracket_def\<close>)
  have r2: \<open>count_list (re_sub (CHR ''{'')
        [Star Whitespace, GroupPlus NotQuoteNorSpace, Lit (CHR '':'')]
        (\<lambda>g. ''{ "'' @ g @ ''":'') t) d = count_list t d\<close> for t
    by (rule re_sub_count [OF _ d]) (use assms in \<open>auto simp: is_bracket_def\<close>)
  have r3: \<open>count_list (re_sub (CHR '','')
        [Star Whitespace, GroupPlus NotQuoteNorSpace, Lit (CHR '':'')]
        (\<lambda>g. '', "'' @ g @ ''":'') t) d = count_list t d\<close> for t
    by (rule re_sub_count [OF _ d]) (use assms in \<open>auto simp: is_bracket_def\<close>)
  have r4: \<open>count_list (re_sub (CHR '':'')
        [Star Whitespace, Lit (CHR ''{''), Star Whitespace, GroupPlus NotQuoteNorSpace,
         Lit (CHR '':'')] (\<lambda>g. '': { "'' @ g @ ''":'') t) d = count_list t d\<close> for t
    by (rule re_sub_count [OF _ d]) (use assms in \<open>auto simp: is_bracket_def\<close>)
  have r5: \<open>count_list (re_sub (CHR ''{'')
        [Star Whitespace, Lit (CHR 0x22), Lit (CHR '':''), Star Whitespace,
         Lit (CHR 0x22), GroupPlus NotQuote, Lit (CHR 0x22)]
        (\<lambda>g. ''{ "name": "'' @ g @ ''"'') t) d = count_list t d\<close> for t
    by (rule re_sub_count [OF _ d]) (use assms in \<open>auto simp: is_bracket_def\<close>)
  show ?thesis
    by (simp only: fix_common_json_issues_def Let_def r1 r2 r3 r4 r5)
qed

lemma fix_common_json_issues_balanced:
  "balanced (fix_common_json_issues s) = balanced s"
  by (simp add: balanced_def brace_depth_def bracket_depth_def count_char_def
      fix_common_json_issues_count is_bracket_def)

lemma re_sub_keeps_text:
  assumes repl: "\<And>g. \<exists>x \<in> set (repl g). \<not> is_space x"
  shows "\<exists>x \<in> set s. \<not> is_space x \<Longrightarrow> \<exists>x \<in> set (re_sub c items repl s). \<not> is_space x"
proof (induction s rule: length_induct)
  case (1 s)
  show ?case
  proof (cases s)
    case Nil
    with "1.prems" show ?thesis by simp
  next
    case (Cons x xs)
    have tail: "\<exists>y \<in> set xs. \<not> is_space y
        \<Longrightarrow> \<exists>y \<in> set (re_sub c items repl xs). \<not> is_space y"
      using "1.IH" Cons by simp
    have copy: "\<exists>y \<in> set (x # re_sub c items repl xs). \<not> is_space y"
    proof (cases "is_space x")
      case True
      with "1.prems" Cons have "\<exists>y \<in> set xs. \<not> is_space y" by auto
      from tail [OF this] show ?thesis by auto
    next
      case False
      then show ?thesis by auto
    qed
    show ?thesis
    proof (cases "x = c")
      case False
      with Cons copy show ?thesis by simp
    next
      case True
      show ?thesis
      proof (cases "match_items items xs")
        case None
        with Cons True copy show ?thesis by auto
      next
        case (Some p)
        obtain g n where p: "p = (g, n)" by (cases p)
        from repl [of g] Cons True Some p show ?thesis by auto
      qed
    qed
  qed
qed

lemma fix_common_json_issues_keeps_text:
  assumes "\<exists>x \<in> set s. \<not> is_space x"
  shows "\<exists>x \<in> set (fix_common_json_issues s). \<not> is_space x"
proof -
  have b: "\<not> is_space (CHR ''{'')"
    by (simp add: is_space_def)
  have k: \<open>\<exists>x \<in> set t. \<not> is_space x \<Longrightarrow> (\<And>g. CHR ''{'' \<in> set (repl g))
      \<Longrightarrow> \<exists>x \<in> set (re_sub c items repl t). \<not> is_space x\<close> for t c items repl
    using b by (rule_tac re_sub_keeps_text) auto
  have c3: "\<not> is_space (CHR '','')"
    by (simp add: is_space_def)
  have k3: \<open>\<exists>x \<in> set t. \<not> is_space x \<Longrightarrow> (\<And>g. CHR '','' \<in> set (repl g))
      \<Longrightarrow> \<exists>x \<in> set (re_sub c items repl t). \<not> is_space x\<close> for t c items repl
    using c3 by (rule_tac re_sub_keeps_text) auto
  show ?thesis
    unfolding fix_common_json_issues_def Let_def
    by (intro k k3 assms) simp_all
qed

subsection \<open>Stripping\<close>

lemma count_list_dropWhile:
  "\<not> P d \<Longrightarrow> count_list (dropWhile P s) d = count_list s d"
  by (induction s) auto

lemma count_list_rev: "count_list (rev s) d = count_list s d"
  by (induction s) simp_all

lemma count_list_strip:
  "\<not> is_space d \<Longrightarrow> count_list (strip s) d = count_list s d"
  by (simp add: strip_def lstrip_def rstrip_def count_list_dropWhile count_list_rev)

lemma balanced_strip: "balanced (strip s) = balanced s"
  by (simp add: balanced_def brace_depth_def bracket_depth_def count_char_def count_list_strip
      is_space_def)

lemma dropWhile_keeps_text:
  "(\<exists>x \<in> set (dropWhile P s). \<not> P x) \<longleftrightarrow> (\<exists>x \<in> set s. \<not> P x)"
  by (induction s) auto

lemma strip_nonempty_iff: "strip s \<noteq> [] \<longleftrightarrow> (\<exists>x \<in> set s. \<not> is_space x)"
proof -
  have "strip s \<noteq> [] \<longleftrightarrow> (\<exists>x \<in> set (rev (dropWhile is_space s)). \<not> is_space x)"
    by (simp add: strip_def lstrip_def rstrip_def dropWhile_eq_Nil_conv)
  also have "\<dots> \<longleftrightarrow> (\<exists>x \<in> set s. \<not> is_space x)"
    by (simp add: dropWhile_keeps_text)
  finally show ?thesis .
qed

lemma rstrip_prefix: "\<exists>r. y = rstrip y @ r"
proof -
  have "rev (takeWhile is_space (rev y) @ dropWhile is_space (rev y)) = y"
    by (simp only: takeWhile_dropWhile_id rev_rev_ident)
  then have "rev (dropWhile is_space (rev y)) @ rev (takeWhile is_space (rev y)) = y"
    by (simp only: rev_append)
  then have "y = rstrip y @ rev (takeWhile is_space (rev y))"
    by (simp only: rstrip_def)
  then show ?thesis by blast
qed

lemma strip_head:
  assumes "strip s \<noteq> []"
  shows "\<not> is_space (hd (strip s))"
proof -
  let ?y = "lstrip s"
  obtain r where r: "?y = rstrip ?y @ r"
    using rstrip_prefix by blast
  from assms have ne: "rstrip ?y \<noteq> []"
    by (simp add: strip_def)
  then have y: "?y \<noteq> []"
    using r by auto
  from ne r have "hd ?y = hd (rstrip ?y)"
    by (metis hd_append2)
  moreover from y have "\<not> is_space (hd ?y)"
    unfolding lstrip_def by (rule hd_dropWhile)
  ultimately show ?thesis
    by (simp add: strip_def)
qed

subsection \<open>Completion of a balanced text\<close>

lemma find_last_complete_structure_balanced:
  assumes "balanced u"
  shows "find_last_complete_structure u = length u"
proof -
  have "Max (complete_offsets u) = length u"
  proof (rule Max_eqI)
    show "finite (complete_offsets u)"
      by (rule complete_offsets_finite)
    show "y \<le> length u" if "y \<in> complete_offsets u" for y
      using that by (simp add: complete_offsets_def)
    show "length u \<in> complete_offsets u"
      using assms by (simp add: complete_offsets_def)
  qed
  then show ?thesis
    by (simp add: find_last_complete_structure_Max)
qed

lemma find_last_complete_structure_le: "find_last_complete_structure t \<le> length t"
proof -
  have "Max (complete_offsets t) \<in> complete_offsets t"
    using complete_offsets_finite complete_offsets_zero by (metis Max_in empty_iff)
  then show ?thesis
    by (simp add: find_last_complete_structure_Max complete_offsets_def)
qed

lemma complete_truncated_json_balanced:
  assumes "balanced x" and "\<exists>c \<in> set x. \<not> is_space c"
  shows "complete_truncated_json loads x = Inr (Some (strip x))"
proof -
  from assms(1) have b: "balanced (strip x)"
    by (simp add: balanced_strip)
  from assms(2) have ne: "strip x \<noteq> []"
    by (simp add: strip_nonempty_iff)
  from b have l: "find_last_complete_structure (strip x) = length (strip x)"
    by (rule find_last_complete_structure_balanced)
  with ne have "find_last_complete_structure (strip x) \<noteq> 0"
    by simp
  from complete_truncated_json_prefix [OF this, of loads] l show ?thesis
    by simp
qed

lemma complete_truncated_json_twice:
  assumes "complete_truncated_json loads s = Inr (Some out)"
  shows "complete_truncated_json loads out = Inr (Some (strip out))"
proof -
  let ?t = "strip s"
  let ?lc = "find_last_complete_structure ?t"
  show ?thesis
  proof (cases "?lc = 0")
    case False
    from complete_truncated_json_prefix [OF False, of loads] assms
    have out: "out = take ?lc ?t" by simp
    have bal: "balanced out"
      unfolding out by (rule take_last_complete_balanced)
    have "?lc \<le> length ?t"
      by (rule find_last_complete_structure_le)
    with False have t: "?t \<noteq> []" by auto
    then have "\<not> is_space (hd ?t)"
      by (rule strip_head)
    moreover from t False have "hd ?t \<in> set (take ?lc ?t)"
      by (cases ?t; cases ?lc) simp_all
    ultimately have "\<exists>c \<in> set out. \<not> is_space c"
      unfolding out by blast
    with bal show ?thesis
      by (rule complete_truncated_json_balanced)
  next
    case True
    let ?completed = "?t @ replicate (nat (bracket_depth ?t)) (CHR '']'')
        @ replicate (nat (brace_depth ?t)) (CHR ''}'')"
    have nonneg: "0 \<le> brace_depth ?t \<and> 0 \<le> bracket_depth ?t"
      using assms True
      by (auto simp: complete_truncated_json_def Let_def brace_depth_def bracket_depth_def
          split: if_splits)
    then have bal: "balanced ?completed"
      by (simp add: closed_text_balanced)
    have unfold: "complete_truncated_json loads s
        = (case loads ?completed of
             Inr v \<Rightarrow> Inr (Some ?completed)
           | Inl e \<Rightarrow>
               if e = JSONDecodeError
               then (case loads (fix_common_json_issues ?completed) of
                       Inr v \<Rightarrow> Inr (Some (fix_common_json_issues ?completed))
                     | Inl e' \<Rightarrow> Inr None)
               else Inl e)"
      using True nonneg
      by (simp add: complete_truncated_json_def Let_def brace_depth_def bracket_depth_def
          split: sum.split)
    have nonspace: "\<exists>c \<in> set ?completed. \<not> is_space c" if "?completed \<noteq> []"
    proof (cases "?t = []")
      case False
      then have "\<not> is_space (hd ?t)" by (rule strip_head)
      with False show ?thesis by (cases ?t) auto
    next
      case True
      with that have "CHR '']'' \<in> set ?completed \<or> CHR ''}'' \<in> set ?completed"
        by (auto simp: set_replicate_conv_if split: if_splits)
      moreover have "\<not> is_space (CHR '']'')" "\<not> is_space (CHR ''}'')"
        by (simp_all add: is_space_def)
      ultimately show ?thesis by blast
    qed
    show ?thesis
    proof (cases "loads ?completed")
      case (Inr v)
      with assms unfold have out: "out = ?completed" by simp
      show ?thesis
      proof (cases "?completed = []")
        case False
        from complete_truncated_json_balanced [OF bal nonspace [OF False], of loads] out
        show ?thesis by simp
      next
        case empty: True
        with out have o: "out = []" by simp
        from empty Inr have "loads [] = Inr v" by simp
        then have "complete_truncated_json loads [] = Inr (Some [])"
          by (simp add: complete_truncated_json_def Let_def strip_def lstrip_def rstrip_def
              find_last_complete_structure_def count_char_def)
        then show ?thesis
          by (simp add: o strip_def lstrip_def rstrip_def)
      qed
    next
      case (Inl e)
      let ?fixed = "fix_common_json_issues ?completed"
      from assms unfold Inl have e: "e = JSONDecodeError"
        by (simp split: if_splits)
      from assms unfold Inl e obtain v where v: "loads ?fixed = Inr v" and out: "out = ?fixed"
        by (cases "loads ?fixed") simp_all
      have "?completed \<noteq> []"
      proof
        assume c: "?completed = []"
        then have "?fixed = []"
          by (simp add: fix_common_json_issues_def)
        with v c Inl show False by simp
      qed
      from nonspace [OF this] have "\<exists>c \<in> set ?fixed. \<not> is_space c"
        by (rule fix_common_json_issues_keeps_text)
      moreover from bal have "balanced ?fixed"
        by (simp add: fix_common_json_issues_balanced)
      ultimately show ?thesis
        unfolding out by (rule complete_truncated_json_balanced [rotated])
    qed
  qed
qed

text \<open>
  C5, amended. For every text on which extraction-by-matching-braces succeeds,
  re-applying it to its own output yields the same output unchanged, whatever the parser
  is. Re-applying completion-by-closing to its own output yields that output stripped of
  surrounding whitespace: the same output unless it ends with whitespace. The key-quoting
  repair has no such guarantee: it leaves unchanged every text that contains no colon, but
  it can alter already-valid JSON and its own parseable output.
\<close>

theorem repair_idempotence:
  "(extract_valid_json loads s = Inr (Some out) \<longrightarrow>
      extract_valid_json loads out = Inr (Some out))
   \<and> (complete_truncated_json loads s = Inr (Some out) \<longrightarrow>
      complete_truncated_json loads out = Inr (Some (strip out)))
   \<and> (CHR '':'' \<notin> set s \<longrightarrow> fix_common_json_issues s = s)"
  using extract_valid_json_idempotent complete_truncated_json_twice
    fix_common_json_issues_no_colon
  by blast

theorem repair_idempotence_witness:
  \<open>extract_valid_json json_loads ''CV: {"a": {"b": 1}} end'' = Inr (Some ''{"a": {"b": 1}}'')
   \<and> extract_valid_json json_loads ''{"a": {"b": 1}}'' = Inr (Some ''{"a": {"b": 1}}'')
   \<and> complete_truncated_json json_loads ''{"a": [1, 2'' = Inr (Some ''{"a": [1, 2]}'')
   \<and> complete_truncated_json json_loads ''{"a": [1, 2]}'' = Inr (Some ''{"a": [1, 2]}'')
   \<and> fix_common_json_issues ''[1, {}]'' = ''[1, {}]''\<close>
proof -
  have e: \<open>extract_valid_json json_loads ''CV: {"a": {"b": 1}} end''
      = Inr (Some ''{"a": {"b": 1}}'')\<close>
    by code_simp
  have k: \<open>complete_truncated_json json_loads ''{"a": [1, 2'' = Inr (Some ''{"a": [1, 2]}'')\<close>
    by code_simp
  have st: \<open>strip ''{"a": [1, 2]}'' = ''{"a": [1, 2]}''\<close>
    by (simp add: strip_def lstrip_def rstrip_def is_space_def)
  have c: \<open>CHR '':'' \<notin> set ''[1, {}]''\<close>
    by simp
  have e2: \<open>extract_valid_json json_loads ''{"a": {"b": 1}}'' = Inr (Some ''{"a": {"b": 1}}'')\<close>
    using repair_idempotence [of json_loads \<open>''CV: {"a": {"b": 1}} end''\<close>
        \<open>''{"a": {"b": 1}}''\<close>] e
    by blast
  have k2: \<open>complete_truncated_json json_loads ''{"a": [1, 2]}''
      = Inr (Some (strip ''{"a": [1, 2]}''))\<close>
    using repair_idempotence [of json_loads \<open>''{"a": [1, 2''\<close> \<open>''{"a": [1, 2]}''\<close>] k
    by blast
  have f: \<open>fix_common_json_issues ''[1, {}]'' = ''[1, {}]''\<close>
    using repair_idempotence [of json_loads \<open>''[1, {}]''\<close>] c
    by blast
  from e e2 k k2 f show ?thesis
    by (simp only: st)
qed

text \<open>
  C5, as stated. Key quoting: the valid JSON text
  \<open>{"summary": "Skills, tools: many"}\<close> is changed by the repair, and the changed text
  does not parse any more; the repair is not idempotent on its successful output either:
  \<open>{{a:b}: 1}\<close> is repaired to \<open>{ "{a:b}": 1}\<close>, which parses, and repairing that
  again changes it. Completion by closing: \<open>{"a": 1} {\<close> is completed to \<open>{"a": 1}\<close>
  followed by a space, which parses, and completing that again removes the space.
\<close>

theorem repair_idempotence_counterexample:
  \<open>json_loads ''{"summary": "Skills, tools: many"}''
     = Inr (JObj [(''summary'', JStr ''Skills, tools: many'')])
   \<and> fix_common_json_issues ''{"summary": "Skills, tools: many"}''
     = ''{"summary": "Skills, "tools": many"}''
   \<and> json_loads (fix_common_json_issues ''{"summary": "Skills, tools: many"}'')
     = Inl JSONDecodeError
   \<and> fix_common_json_issues ''{{a:b}: 1}'' = ''{ "{a:b}": 1}''
   \<and> json_loads ''{ "{a:b}": 1}'' = Inr (JObj [(''{a:b}'', JInt 1)])
   \<and> fix_common_json_issues ''{ "{a:b}": 1}'' = ''{ "{ "a":b}": 1}''
   \<and> complete_truncated_json json_loads ''{"a": 1} {'' = Inr (Some ''{"a": 1} '')
   \<and> json_loads ''{"a": 1} '' = Inr (JObj [(''a'', JInt 1)])
   \<and> complete_truncated_json json_loads ''{"a": 1} '' = Inr (Some ''{"a": 1}'')\<close>
  by code_simp

section \<open>Properties of the repair order\<close>

lemma approach_fix_common_issues_eq:
  "approach_fix_common_issues loads raw
     = parse_and_validate loads (fix_common_json_issues raw)"
  by (simp add: approach_fix_common_issues_def parse_and_validate_def)

lemma approach_extract_valid_json_eq:
  "approach_extract_valid_json loads raw
     = (case nonempty_output (extract_valid_json loads raw) of
          None \<Rightarrow> None
        | Some t \<Rightarrow> parse_and_validate loads t)"
  by (simp add: approach_extract_valid_json_def parse_and_validate_def nonempty_output_def
      split: sum.split option.split)

lemma approach_complete_truncated_eq:
  "approach_complete_truncated loads raw
     = (case nonempty_output (complete_truncated_json loads raw) of
          None \<Rightarrow> None
        | Some t \<Rightarrow> parse_and_validate loads t)"
  by (simp add: approach_complete_truncated_def parse_and_validate_def nonempty_output_def
      split: sum.split option.split)

text \<open>
  C4, amended. For every unparseable raw response that reaches the repair part of
  \<open>_parse_ai_response\<close>, the strategies are applied in the fixed order key-quoting
  repair, extraction-by-matching-braces, completion-by-closing, each to the full original
  raw text, stopping at the first strategy whose text parses and passes validation (a
  text that parses but fails validation does not stop the chain); when none does, the
  failure carries the raw text.
\<close>

theorem repair_json_order:
  "repair_json loads raw
     = (case apply_in_order loads
               [KeyQuoting, ExtractionByMatchingBraces, CompletionByClosing] raw of
          (log, Some validated) \<Rightarrow> (log, Inr validated)
        | (log, None) \<Rightarrow> (log, Inl (RepairsFailed raw)))"
  by (simp add: repair_json_def approach_fix_common_issues_eq approach_extract_valid_json_eq
      approach_complete_truncated_eq split: option.split)

text \<open>
  C4, as stated. On \<open>{personal_information: {"first_name": "Ana", "last_name":
  "Cruz"}}\<close> the first strategy applied is the key-quoting repair, and extraction is never
  tried; in the order of the claim extraction would have come first. On
  \<open>{ name: "Ana" }\<close> the key-quoting repair yields a text that parses, and the chain does
  not stop there: the parsed value fails validation, the other two strategies are tried,
  and the repair fails.
\<close>

theorem repair_json_order_counterexample:
  \<open>repair_json json_loads ''{personal_information: {"first_name": "Ana", "last_name": "Cruz"}}''
     = ([ApproachFixCommonIssues],
        Inr (JObj [(''personal_information'',
                    JObj [(''first_name'', JStr ''Ana''), (''last_name'', JStr ''Cruz'')])]))
   \<and> apply_in_order json_loads
        [ExtractionByMatchingBraces, KeyQuoting, CompletionByClosing]
        ''{personal_information: {"first_name": "Ana", "last_name": "Cruz"}}''
     = ([ApproachExtractValidJson, ApproachFixCommonIssues],
        Some (JObj [(''personal_information'',
                     JObj [(''first_name'', JStr ''Ana''), (''last_name'', JStr ''Cruz'')])]))
   \<and> json_loads (fix_common_json_issues ''{ name: "Ana" }'')
     = Inr (JObj [(''name'', JStr ''Ana'')])
   \<and> repair_json json_loads ''{ name: "Ana" }''
     = ([ApproachFixCommonIssues, ApproachExtractValidJson, ApproachCompleteTruncated],
        Inl (RepairsFailed ''{ name: "Ana" }''))\<close>
  by code_simp

theorem repair_json_order_witness:
  \<open>repair_json json_loads ''{"a": [1, 2''
     = ([ApproachFixCommonIssues, ApproachExtractValidJson, ApproachCompleteTruncated],
        Inl (RepairsFailed ''{"a": [1, 2''))\<close>
proof -
  have a: \<open>apply_in_order json_loads
        [KeyQuoting, ExtractionByMatchingBraces, CompletionByClosing] ''{"a": [1, 2''
      = ([ApproachFixCommonIssues, ApproachExtractValidJson, ApproachCompleteTruncated], None)\<close>
    by code_simp
  show ?thesis
    using repair_json_order [of json_loads \<open>''{"a": [1, 2''\<close>] unfolding a by simp
qed

section \<open>Properties of the continuation gate\<close>


lemma try_continuation_log:
  "fst (try_continuation self loads post r prompt m)
     = fst (continue_ai_response self post r prompt m)"
  by (simp add: try_continuation_def split: prod.split option.split sum.split)

lemma repair_json_log:
  "set (fst (repair_json loads r))
     \<subseteq> {ApproachFixCommonIssues, ApproachExtractValidJson, ApproachCompleteTruncated}"
  by (simp add: repair_json_def split: option.split)










section \<open>Properties of the orchestrator\<close>

lemma try_models_last_error:
  assumes "try_models self loads post filename text_content models last_error = (log, Inl x)"
    and "models \<noteq> []"
  shows "\<exists>e. snd (attempt_model self loads post filename text_content (last models)) = Inl e
           \<and> x = Some e"
  using assms
proof (induction models arbitrary: last_error log)
  case Nil
  then show ?case by simp
next
  case (Cons model models)
  obtain alog outcome where a:
    "attempt_model self loads post filename text_content model = (alog, outcome)"
    by (cases "attempt_model self loads post filename text_content model")
  show ?case
  proof (cases outcome)
    case (Inr result)
    with Cons.prems a show ?thesis by simp
  next
    case (Inl e)
    obtain rlog rest where r:
      "try_models self loads post filename text_content models (Some e) = (rlog, rest)"
      by (cases "try_models self loads post filename text_content models (Some e)")
    from Cons.prems(1) a Inl r have rest: "rest = Inl x" by simp
    show ?thesis
    proof (cases "models = []")
      case True
      with r rest have "x = Some e" by simp
      with a Inl True show ?thesis by simp
    next
      case False
      from Cons.IH [OF r [unfolded rest] False] False show ?thesis by simp
    qed
  qed
qed

lemma process_cv_single_request_failure:
  assumes "snd (process_cv_single_request self loads post filename text_content model) = Inl err"
  shows "\<exists>e. snd (attempt_model self loads post filename text_content
                 (last (primary_model self
                    # (if enable_fallback_models self then fallback_models self else []))))
               = Inl e
           \<and> err = AllModelsFailed (Some e) (raw_response_of (Some e)) filename
                 (if length text_content > 500 then take 500 text_content @ ''...''
                  else text_content)
                 (primary_model self
                    # (if enable_fallback_models self then fallback_models self else []))"
proof -
  let ?models = "primary_model self
      # (if enable_fallback_models self then fallback_models self else [])"
  obtain log outcome where t:
    "try_models self loads post filename text_content ?models None = (log, outcome)"
    by (cases "try_models self loads post filename text_content ?models None")
  show ?thesis
  proof (cases outcome)
    case (Inr found)
    with assms t show ?thesis
      by (simp add: process_cv_single_request_def Let_def)
  next
    case (Inl x)
    have ne: "?models \<noteq> []" by simp
    from try_models_last_error [OF t [unfolded Inl] ne]
    obtain e where e: "snd (attempt_model self loads post filename text_content (last ?models))
        = Inl e" "x = Some e"
      by blast
    from assms t Inl e(2) have "err = AllModelsFailed (Some e) (raw_response_of (Some e)) filename
        (if length text_content > 500 then take 500 text_content @ ''...'' else text_content)
        ?models"
      by (simp add: process_cv_single_request_def Let_def)
    with e(1) show ?thesis by blast
  qed
qed

lemma process_cv_to_json_failure:
  assumes "snd (process_cv_to_json self loads post filename text_content) = Inl err"
  shows "\<exists>primary_error.
           snd (process_cv_single_request self loads post filename text_content
                  (primary_model self)) = Inl primary_error
           \<and> err = (if enable_fallback_models self then AllAIModelsFailed primary_error
                    else primary_error)"
proof -
  obtain log outcome where s:
    "process_cv_single_request self loads post filename text_content (primary_model self)
       = (log, outcome)"
    by (cases "process_cv_single_request self loads post filename text_content
        (primary_model self)")
  show ?thesis
  proof (cases outcome)
    case (Inr info)
    with assms s show ?thesis
      by (simp add: process_cv_to_json_def)
  next
    case (Inl primary_error)
    obtain flog found where f:
      "try_fallbacks self loads post filename text_content (fallback_models self) = (flog, found)"
      by (cases "try_fallbacks self loads post filename text_content (fallback_models self)")
    show ?thesis
    proof (cases "enable_fallback_models self")
      case False
      with assms s Inl show ?thesis
        by (simp add: process_cv_to_json_def)
    next
      case True
      with assms s Inl f show ?thesis
        by (cases found) (simp_all add: process_cv_to_json_def)
    qed
  qed
qed

text \<open>
  The requests a run posts. One call of \<open>_process_cv_single_request\<close> invokes the
  models of the whole list in list order, each once, up to the first one whose attempt
  succeeds, whatever model it was called for. When every attempt fails and fallback
  models are enabled, \<open>process_cv_to_json\<close> repeats that walk once for each fallback
  model.
\<close>

lemma api_calls_append: "api_calls (a @ b) = api_calls a @ api_calls b"
  by (induction a rule: api_calls.induct) simp_all

lemma api_calls_none:
  "(\<And>m. ApiCall m \<notin> set log) \<Longrightarrow> api_calls log = []"
  by (induction log rule: api_calls.induct) auto

lemma truncation_check_log:
  "set (fst (truncation_check reason text)) \<subseteq> {WarnTruncatedByLength, WarnNoClosingBrace}"
  by (auto simp: truncation_check_def Let_def split: if_splits prod.splits)

lemma continue_ai_response_log_set:
  "set (fst (continue_ai_response self post r prompt m))
     \<subseteq> {ContinuationRequested, ContinuationCall m}"
  by (auto simp: continue_ai_response_def Let_def split: sum.splits prod.splits if_splits)

lemma parse_ai_response_log:
  "ApiCall x \<notin> set (fst (parse_ai_response self loads post r prompt m))"
proof -
  have rep: "ApiCall x \<notin> set (fst (repair_json loads r))"
    using repair_json_log [of loads r] by auto
  have con: "ApiCall x \<notin> set (fst (try_continuation self loads post r prompt m))"
    using continue_ai_response_log_set [of self post r prompt m]
    by (auto simp: try_continuation_log)
  show ?thesis
  proof (cases "loads r")
    case (Inr v)
    then show ?thesis by (simp add: parse_ai_response_def)
  next
    case (Inl e)
    obtain clog found where tc: "try_continuation self loads post r prompt m = (clog, found)"
      by (cases "try_continuation self loads post r prompt m")
    obtain rlog outcome where rj: "repair_json loads r = (rlog, outcome)"
      by (cases "repair_json loads r")
    from rep rj have r': "ApiCall x \<notin> set rlog" by simp
    from con tc have c': "ApiCall x \<notin> set clog" by simp
    show ?thesis
      using Inl tc rj r' c'
      by (cases found) (auto simp: parse_ai_response_def split: if_splits)
  qed
qed

lemma api_calls_call_openrouter_api:
  "api_calls (fst (call_openrouter_api self post prompt model)) = [model]"
proof -
  let ?payload = "\<lparr>req_model = model, system_message = SYSTEM_MESSAGE, user_message = prompt,
      max_tokens = calculate_max_tokens (model_token_limits self) model (int (length prompt))\<rparr>"
  show ?thesis
  proof (cases "post ?payload")
    case (Inl e)
    then show ?thesis
      by (simp add: call_openrouter_api_def Let_def)
  next
    case (Inr p)
    obtain ai_response reason where p: "p = (ai_response, reason)"
      by (cases p)
    obtain warnings fixed where t: "truncation_check reason ai_response = (warnings, fixed)"
      by (cases "truncation_check reason ai_response")
    have "api_calls (fst (truncation_check reason ai_response)) = []"
      by (rule api_calls_none) (use truncation_check_log [of reason ai_response] in auto)
    with t have "api_calls warnings = []" by simp
    with Inr p t show ?thesis
      by (simp add: call_openrouter_api_def Let_def)
  qed
qed

lemma api_calls_attempt_model:
  "api_calls (fst (attempt_model self loads post filename text_content model)) = [model]"
proof -
  let ?prompt = "create_cv_prompt filename text_content"
  obtain clog info where c: "call_openrouter_api self post ?prompt model = (clog, info)"
    by (cases "call_openrouter_api self post ?prompt model")
  from api_calls_call_openrouter_api [of self post ?prompt model] c
  have cl: "api_calls clog = [model]" by simp
  show ?thesis
  proof (cases info)
    case (Inl e)
    with c cl show ?thesis by (simp add: attempt_model_def)
  next
    case (Inr i)
    obtain plog parsed where p:
      "parse_ai_response self loads post (info_content i) ?prompt model = (plog, parsed)"
      by (cases "parse_ai_response self loads post (info_content i) ?prompt model")
    have "api_calls (fst (parse_ai_response self loads post (info_content i) ?prompt model)) = []"
      by (rule api_calls_none) (rule parse_ai_response_log)
    with p have pl: "api_calls plog = []" by simp
    from c Inr p cl pl show ?thesis
      by (cases parsed) (simp_all add: attempt_model_def api_calls_append)
  qed
qed

lemma api_calls_try_models:
  "api_calls (fst (try_models self loads post filename text_content models last_error))
     = models_until_success
         (\<lambda>m. \<not> isl (snd (attempt_model self loads post filename text_content m))) models"
proof (induction models arbitrary: last_error)
  case Nil
  show ?case by simp
next
  case (Cons model models)
  obtain alog outcome where a:
    "attempt_model self loads post filename text_content model = (alog, outcome)"
    by (cases "attempt_model self loads post filename text_content model")
  from api_calls_attempt_model [of self loads post filename text_content model] a
  have al: "api_calls alog = [model]" by simp
  show ?case
  proof (cases outcome)
    case (Inr result)
    with a al show ?thesis by (simp add: api_calls_append)
  next
    case (Inl e)
    obtain rlog rest where r:
      "try_models self loads post filename text_content models (Some e) = (rlog, rest)"
      by (cases "try_models self loads post filename text_content models (Some e)")
    from Cons.IH [of "Some e"] r
    have "api_calls rlog = models_until_success
        (\<lambda>m. \<not> isl (snd (attempt_model self loads post filename text_content m))) models"
      by simp
    with a al Inl r show ?thesis by (simp add: api_calls_append)
  qed
qed

lemma api_calls_single_request:
  "api_calls (fst (process_cv_single_request self loads post filename text_content model))
     = models_until_success
         (\<lambda>m. \<not> isl (snd (attempt_model self loads post filename text_content m)))
         (primary_model self
            # (if enable_fallback_models self then fallback_models self else []))"
proof -
  let ?models = "primary_model self
      # (if enable_fallback_models self then fallback_models self else [])"
  obtain log outcome where t:
    "try_models self loads post filename text_content ?models None = (log, outcome)"
    by (cases "try_models self loads post filename text_content ?models None")
  from api_calls_try_models [of self loads post filename text_content ?models None] t
  have "api_calls log = models_until_success
      (\<lambda>m. \<not> isl (snd (attempt_model self loads post filename text_content m))) ?models"
    by simp
  with t show ?thesis
    by (cases outcome) (simp_all add: process_cv_single_request_def Let_def)
qed

lemma models_until_success_all_fail:
  "(\<And>m. m \<in> set models \<Longrightarrow> \<not> succeeds m) \<Longrightarrow> models_until_success succeeds models = models"
  by (induction models) simp_all

lemma try_models_fails_iff:
  "isl (snd (try_models self loads post filename text_content models last_error))
     \<longleftrightarrow> (\<forall>m \<in> set models.
            isl (snd (attempt_model self loads post filename text_content m)))"
proof (induction models arbitrary: last_error)
  case Nil
  show ?case by simp
next
  case (Cons model models)
  obtain alog outcome where a:
    "attempt_model self loads post filename text_content model = (alog, outcome)"
    by (cases "attempt_model self loads post filename text_content model")
  show ?case
  proof (cases outcome)
    case (Inr result)
    with a show ?thesis by simp
  next
    case (Inl e)
    obtain rlog rest where r:
      "try_models self loads post filename text_content models (Some e) = (rlog, rest)"
      by (cases "try_models self loads post filename text_content models (Some e)")
    from Cons.IH [of "Some e"] r a Inl show ?thesis by simp
  qed
qed

lemma process_cv_single_request_fails_iff:
  "isl (snd (process_cv_single_request self loads post filename text_content model))
     \<longleftrightarrow> (\<forall>m \<in> set (primary_model self
                  # (if enable_fallback_models self then fallback_models self else [])).
            isl (snd (attempt_model self loads post filename text_content m)))"
proof -
  let ?models = "primary_model self
      # (if enable_fallback_models self then fallback_models self else [])"
  obtain log outcome where t:
    "try_models self loads post filename text_content ?models None = (log, outcome)"
    by (cases "try_models self loads post filename text_content ?models None")
  from try_models_fails_iff [of self loads post filename text_content ?models None] t
  have "isl outcome \<longleftrightarrow> (\<forall>m \<in> set ?models.
      isl (snd (attempt_model self loads post filename text_content m)))"
    by simp
  with t show ?thesis
    by (cases outcome) (simp_all add: process_cv_single_request_def Let_def)
qed

lemma process_cv_single_request_ignores_model:
  "process_cv_single_request self loads post filename text_content model
     = process_cv_single_request self loads post filename text_content model'"
  by (simp add: process_cv_single_request_def)

lemma api_calls_try_fallbacks_all_fail:
  assumes "isl (snd (process_cv_single_request self loads post filename text_content model))"
  shows "api_calls (fst (try_fallbacks self loads post filename text_content fallbacks))
     = concat (replicate (length fallbacks)
         (api_calls (fst (process_cv_single_request self loads post filename text_content
            model))))"
proof (induction fallbacks)
  case Nil
  show ?case by simp
next
  case (Cons fallback_model fallbacks)
  obtain log outcome where s:
    "process_cv_single_request self loads post filename text_content fallback_model
       = (log, outcome)"
    by (cases "process_cv_single_request self loads post filename text_content fallback_model")
  have same: "process_cv_single_request self loads post filename text_content model
      = (log, outcome)"
    using s process_cv_single_request_ignores_model [of self loads post filename text_content
        model fallback_model]
    by simp
  with assms obtain e where e: "outcome = Inl e"
    by (cases outcome) simp_all
  obtain rlog rest where r:
    "try_fallbacks self loads post filename text_content fallbacks = (rlog, rest)"
    by (cases "try_fallbacks self loads post filename text_content fallbacks")
  from Cons.IH r same
  have "api_calls rlog = concat (replicate (length fallbacks) (api_calls log))"
    by simp
  with s e r same show ?case
    by (simp add: api_calls_append)
qed

lemma api_calls_process_cv_to_json_all_fail:
  assumes "enable_fallback_models self"
    and "\<forall>m \<in> set (primary_model self # fallback_models self).
           isl (snd (attempt_model self loads post filename text_content m))"
  shows "api_calls (fst (process_cv_to_json self loads post filename text_content))
     = concat (replicate (Suc (length (fallback_models self)))
         (primary_model self # fallback_models self))"
proof -
  let ?models = "primary_model self # fallback_models self"
  let ?single = "process_cv_single_request self loads post filename text_content
      (primary_model self)"
  from assms have fails: "isl (snd ?single)"
    by (simp add: process_cv_single_request_fails_iff)
  have walk: "api_calls (fst ?single) = ?models"
    using assms
    by (simp add: api_calls_single_request models_until_success_all_fail)
  obtain log outcome where s: "?single = (log, outcome)"
    by (cases ?single)
  from fails s obtain primary_error where pe: "outcome = Inl primary_error"
    by (cases outcome) simp_all
  obtain flog found where f:
    "try_fallbacks self loads post filename text_content (fallback_models self) = (flog, found)"
    by (cases "try_fallbacks self loads post filename text_content (fallback_models self)")
  from api_calls_try_fallbacks_all_fail [OF fails, of "fallback_models self"] f walk
  have fl: "api_calls flog = concat (replicate (length (fallback_models self)) ?models)"
    by simp
  from walk s have l: "api_calls log = ?models" by simp
  from s pe f assms(1) l fl show ?thesis
    by (cases found) (simp_all add: process_cv_to_json_def api_calls_append)
qed

lemma try_fallbacks_all_fail:
  assumes "isl (snd (process_cv_single_request self loads post filename text_content model))"
  shows "snd (try_fallbacks self loads post filename text_content fallbacks) = None"
proof (induction fallbacks)
  case Nil
  show ?case by simp
next
  case (Cons fallback_model fallbacks)
  obtain log outcome where s:
    "process_cv_single_request self loads post filename text_content fallback_model
       = (log, outcome)"
    by (cases "process_cv_single_request self loads post filename text_content fallback_model")
  have "process_cv_single_request self loads post filename text_content model = (log, outcome)"
    using s process_cv_single_request_ignores_model [of self loads post filename text_content
        model fallback_model]
    by simp
  with assms obtain e where e: "outcome = Inl e"
    by (cases outcome) simp_all
  obtain rlog rest where r:
    "try_fallbacks self loads post filename text_content fallbacks = (rlog, rest)"
    by (cases "try_fallbacks self loads post filename text_content fallbacks")
  from Cons.IH r have "rest = None" by simp
  with s e r show ?case by simp
qed

lemma process_cv_to_json_fails_iff:
  "isl (snd (process_cv_to_json self loads post filename text_content))
     \<longleftrightarrow> isl (snd (process_cv_single_request self loads post filename text_content
                  (primary_model self)))"
proof
  assume "isl (snd (process_cv_to_json self loads post filename text_content))"
  then obtain err where "snd (process_cv_to_json self loads post filename text_content) = Inl err"
    by (cases "snd (process_cv_to_json self loads post filename text_content)") simp_all
  from process_cv_to_json_failure [OF this]
  show "isl (snd (process_cv_single_request self loads post filename text_content
      (primary_model self)))"
    by auto
next
  assume f: "isl (snd (process_cv_single_request self loads post filename text_content
      (primary_model self)))"
  obtain log outcome where s:
    "process_cv_single_request self loads post filename text_content (primary_model self)
       = (log, outcome)"
    by (cases "process_cv_single_request self loads post filename text_content
        (primary_model self)")
  from f s obtain primary_error where pe: "outcome = Inl primary_error"
    by (cases outcome) simp_all
  obtain flog found where t:
    "try_fallbacks self loads post filename text_content (fallback_models self) = (flog, found)"
    by (cases "try_fallbacks self loads post filename text_content (fallback_models self)")
  from try_fallbacks_all_fail [OF f, of "fallback_models self"] t have "found = None"
    by simp
  with s pe t show "isl (snd (process_cv_to_json self loads post filename text_content))"
    by (simp add: process_cv_to_json_def)
qed

text \<open>
  C8, amended. An extraction fails exactly when the attempt of every configured model
  fails. In that case a single terminal failure is surfaced to the caller, and it is the
  terminal exception of the orchestrator, never the exception of a model's attempt
  itself: it carries one error, which is the reason one of the configured models failed
  for (with the raw response of that error, if it has one), the file name, a preview of
  the text and a list of model names. It does not carry the reasons of the other models;
  those are printed and dropped. With fallback models disabled the terminal exception
  is the one of \<open>_process_cv_single_request\<close>, not wrapped again.
\<close>

theorem terminal_failure:
  "(isl (snd (process_cv_to_json self loads post filename text_content))
      \<longleftrightarrow> (\<forall>m \<in> set (primary_model self
                   # (if enable_fallback_models self then fallback_models self else [])).
             isl (snd (attempt_model self loads post filename text_content m))))
   \<and> ((\<forall>m \<in> set (primary_model self
                   # (if enable_fallback_models self then fallback_models self else [])).
          isl (snd (attempt_model self loads post filename text_content m)))
      \<longrightarrow> (\<exists>e tried.
             snd (process_cv_to_json self loads post filename text_content)
               = Inl (if enable_fallback_models self
                      then AllAIModelsFailed
                             (AllModelsFailed (Some e) (raw_response_of (Some e)) filename
                                (if length text_content > 500
                                 then take 500 text_content @ ''...'' else text_content)
                                tried)
                      else AllModelsFailed (Some e) (raw_response_of (Some e)) filename
                             (if length text_content > 500
                              then take 500 text_content @ ''...'' else text_content)
                             tried)
             \<and> (\<exists>m \<in> set (primary_model self
                     # (if enable_fallback_models self then fallback_models self else [])).
                   snd (attempt_model self loads post filename text_content m) = Inl e)))"
proof -
  let ?models = "primary_model self
      # (if enable_fallback_models self then fallback_models self else [])"
  let ?all_fail = "\<forall>m \<in> set ?models.
      isl (snd (attempt_model self loads post filename text_content m))"
  let ?preview = "if length text_content > 500 then take 500 text_content @ ''...''
      else text_content"
  have iff: "isl (snd (process_cv_to_json self loads post filename text_content)) \<longleftrightarrow> ?all_fail"
    by (simp only: process_cv_to_json_fails_iff process_cv_single_request_fails_iff)
  have form: "\<exists>e tried.
      snd (process_cv_to_json self loads post filename text_content)
        = Inl (if enable_fallback_models self
               then AllAIModelsFailed
                      (AllModelsFailed (Some e) (raw_response_of (Some e)) filename ?preview tried)
               else AllModelsFailed (Some e) (raw_response_of (Some e)) filename ?preview tried)
      \<and> (\<exists>m \<in> set ?models.
            snd (attempt_model self loads post filename text_content m) = Inl e)"
    if af: ?all_fail
  proof -
    from af iff obtain err where
      err: "snd (process_cv_to_json self loads post filename text_content) = Inl err"
      by (cases "snd (process_cv_to_json self loads post filename text_content)") simp_all
    from process_cv_to_json_failure [OF err] obtain primary_error where
      p: "snd (process_cv_single_request self loads post filename text_content
            (primary_model self)) = Inl primary_error"
      and e1: "err = (if enable_fallback_models self then AllAIModelsFailed primary_error
            else primary_error)"
      by blast
    from process_cv_single_request_failure [OF p] obtain e where
      e: "snd (attempt_model self loads post filename text_content (last ?models)) = Inl e"
      and pe: "primary_error = AllModelsFailed (Some e) (raw_response_of (Some e)) filename
            ?preview ?models"
      by blast
    have "last ?models \<in> set ?models"
      by (rule last_in_set) simp
    with e have m: "\<exists>m \<in> set ?models.
        snd (attempt_model self loads post filename text_content m) = Inl e"
      by blast
    from err e1 pe have "snd (process_cv_to_json self loads post filename text_content)
        = Inl (if enable_fallback_models self
               then AllAIModelsFailed
                      (AllModelsFailed (Some e) (raw_response_of (Some e)) filename ?preview
                         ?models)
               else AllModelsFailed (Some e) (raw_response_of (Some e)) filename ?preview
                      ?models)"
      by simp
    with m show ?thesis by blast
  qed
  from iff form show ?thesis by blast
qed

lemma default_processor_fields:
  "primary_model default_processor = ''anthropic/claude-3.5-sonnet''"
  "fallback_models default_processor
     = [''openai/gpt-4o'', ''anthropic/claude-3-haiku'', ''meta-llama/llama-3.1-8b-instruct'']"
  "enable_fallback_models default_processor = True"
  by (simp_all add: default_processor_def)

lemma attempt_model_all_down:
  "attempt_model self loads all_down filename text_content model
     = ([ApiCall model], Inl (ApiError 500 ''down''))"
  by (simp add: attempt_model_def call_openrouter_api_def all_down_def Let_def)

lemma attempt_model_primary_rate_limited:
  "attempt_model self loads primary_rate_limited filename text_content model
     = ([ApiCall model],
        Inl (if model = ''anthropic/claude-3.5-sonnet'' then ApiError 429 ''rate limit''
             else ApiError 500 ''down''))"
  by (simp add: attempt_model_def call_openrouter_api_def primary_rate_limited_def Let_def)

lemma single_request_all_down:
  "process_cv_single_request default_processor loads all_down ''cv.pdf'' ''Ana Cruz'' model
     = ([ApiCall ''anthropic/claude-3.5-sonnet'',
         ModelFailed ''anthropic/claude-3.5-sonnet'' (ApiError 500 ''down''),
         ApiCall ''openai/gpt-4o'',
         ModelFailed ''openai/gpt-4o'' (ApiError 500 ''down''),
         ApiCall ''anthropic/claude-3-haiku'',
         ModelFailed ''anthropic/claude-3-haiku'' (ApiError 500 ''down''),
         ApiCall ''meta-llama/llama-3.1-8b-instruct'',
         ModelFailed ''meta-llama/llama-3.1-8b-instruct'' (ApiError 500 ''down'')],
        Inl (AllModelsFailed (Some (ApiError 500 ''down'')) None ''cv.pdf'' ''Ana Cruz''
               [''anthropic/claude-3.5-sonnet'', ''openai/gpt-4o'',
                ''anthropic/claude-3-haiku'', ''meta-llama/llama-3.1-8b-instruct'']))"
  by (simp add: process_cv_single_request_def default_processor_fields attempt_model_all_down)

lemma single_request_primary_rate_limited:
  "process_cv_single_request default_processor loads primary_rate_limited
       ''cv.pdf'' ''Ana Cruz'' model
     = ([ApiCall ''anthropic/claude-3.5-sonnet'',
         ModelFailed ''anthropic/claude-3.5-sonnet'' (ApiError 429 ''rate limit''),
         ApiCall ''openai/gpt-4o'',
         ModelFailed ''openai/gpt-4o'' (ApiError 500 ''down''),
         ApiCall ''anthropic/claude-3-haiku'',
         ModelFailed ''anthropic/claude-3-haiku'' (ApiError 500 ''down''),
         ApiCall ''meta-llama/llama-3.1-8b-instruct'',
         ModelFailed ''meta-llama/llama-3.1-8b-instruct'' (ApiError 500 ''down'')],
        Inl (AllModelsFailed (Some (ApiError 500 ''down'')) None ''cv.pdf'' ''Ana Cruz''
               [''anthropic/claude-3.5-sonnet'', ''openai/gpt-4o'',
                ''anthropic/claude-3-haiku'', ''meta-llama/llama-3.1-8b-instruct'']))"
  by (simp add: process_cv_single_request_def default_processor_fields
      attempt_model_primary_rate_limited)

text \<open>
  C8, as stated, at the default configuration with every model failing. When the
  primary model fails with status 429 and the three others with status 500, the terminal
  failure names a single error, of status 500, and is the very failure surfaced when all
  four models fail with status 500: the two runs differ in the reasons of their models,
  and the failure surfaced does not tell them apart, so it does not carry the list of
  those reasons.
\<close>

theorem terminal_failure_counterexample:
  "snd (process_cv_to_json default_processor json_loads primary_rate_limited
          ''cv.pdf'' ''Ana Cruz'')
     = Inl (AllAIModelsFailed
              (AllModelsFailed (Some (ApiError 500 ''down'')) None ''cv.pdf'' ''Ana Cruz''
                 [''anthropic/claude-3.5-sonnet'', ''openai/gpt-4o'',
                  ''anthropic/claude-3-haiku'', ''meta-llama/llama-3.1-8b-instruct'']))
   \<and> snd (process_cv_to_json default_processor json_loads all_down ''cv.pdf'' ''Ana Cruz'')
     = snd (process_cv_to_json default_processor json_loads primary_rate_limited
          ''cv.pdf'' ''Ana Cruz'')
   \<and> take 4 (model_failures (fst (process_cv_to_json default_processor json_loads
          primary_rate_limited ''cv.pdf'' ''Ana Cruz'')))
     = [(''anthropic/claude-3.5-sonnet'', ApiError 429 ''rate limit''),
        (''openai/gpt-4o'', ApiError 500 ''down''),
        (''anthropic/claude-3-haiku'', ApiError 500 ''down''),
        (''meta-llama/llama-3.1-8b-instruct'', ApiError 500 ''down'')]
   \<and> take 4 (model_failures (fst (process_cv_to_json default_processor json_loads
          all_down ''cv.pdf'' ''Ana Cruz'')))
     = [(''anthropic/claude-3.5-sonnet'', ApiError 500 ''down''),
        (''openai/gpt-4o'', ApiError 500 ''down''),
        (''anthropic/claude-3-haiku'', ApiError 500 ''down''),
        (''meta-llama/llama-3.1-8b-instruct'', ApiError 500 ''down'')]"
  by (simp add: process_cv_to_json_def default_processor_fields single_request_all_down
      single_request_primary_rate_limited)


theorem terminal_failure_witness:
  "isl (snd (process_cv_to_json default_processor json_loads all_down ''cv.pdf'' ''Ana Cruz''))
   \<and> (\<exists>e tried.
         snd (process_cv_to_json default_processor json_loads all_down ''cv.pdf'' ''Ana Cruz'')
           = Inl (AllAIModelsFailed
                    (AllModelsFailed (Some e) (raw_response_of (Some e)) ''cv.pdf'' ''Ana Cruz''
                       tried))
         \<and> (\<exists>m \<in> set [''anthropic/claude-3.5-sonnet'', ''openai/gpt-4o'',
                         ''anthropic/claude-3-haiku'', ''meta-llama/llama-3.1-8b-instruct''].
               snd (attempt_model default_processor json_loads all_down ''cv.pdf'' ''Ana Cruz'' m)
                 = Inl e))"
proof -
  let ?models = "primary_model default_processor
      # (if enable_fallback_models default_processor
         then fallback_models default_processor else [])"
  have h: "\<forall>m \<in> set ?models.
      isl (snd (attempt_model default_processor json_loads all_down ''cv.pdf'' ''Ana Cruz'' m))"
    by (simp add: attempt_model_all_down)
  note T = terminal_failure [of default_processor json_loads all_down "''cv.pdf''"
      "''Ana Cruz''"]
  from T h have a: "isl (snd (process_cv_to_json default_processor json_loads all_down
      ''cv.pdf'' ''Ana Cruz''))"
    by blast
  from T h have "\<exists>e tried.
      snd (process_cv_to_json default_processor json_loads all_down ''cv.pdf'' ''Ana Cruz'')
        = Inl (if enable_fallback_models default_processor
               then AllAIModelsFailed
                      (AllModelsFailed (Some e) (raw_response_of (Some e)) ''cv.pdf''
                         (if length ''Ana Cruz'' > 500 then take 500 ''Ana Cruz'' @ ''...''
                          else ''Ana Cruz'')
                         tried)
               else AllModelsFailed (Some e) (raw_response_of (Some e)) ''cv.pdf''
                      (if length ''Ana Cruz'' > 500 then take 500 ''Ana Cruz'' @ ''...''
                       else ''Ana Cruz'')
                      tried)
      \<and> (\<exists>m \<in> set ?models.
            snd (attempt_model default_processor json_loads all_down ''cv.pdf'' ''Ana Cruz'' m)
              = Inl e)"
    by blast
  then have b: "\<exists>e tried.
      snd (process_cv_to_json default_processor json_loads all_down ''cv.pdf'' ''Ana Cruz'')
        = Inl (AllAIModelsFailed
                 (AllModelsFailed (Some e) (raw_response_of (Some e)) ''cv.pdf'' ''Ana Cruz''
                    tried))
      \<and> (\<exists>m \<in> set [''anthropic/claude-3.5-sonnet'', ''openai/gpt-4o'',
                      ''anthropic/claude-3-haiku'', ''meta-llama/llama-3.1-8b-instruct''].
            snd (attempt_model default_processor json_loads all_down ''cv.pdf'' ''Ana Cruz'' m)
              = Inl e)"
    by (simp add: default_processor_fields)
  from a b show ?thesis by blast
qed

text \<open>
  C1, at the default configuration of four models with every request answered by
  status 500: the orchestrator posts sixteen requests, four to each model.
  \<open>process_cv_to_json\<close> calls \<open>_process_cv_single_request\<close> once for the primary model
  and once for each of the three fallback models, and every one of these calls walks the
  whole list of models, because the loop variable \<open>model\<close> replaces the parameter of the
  same name.
\<close>

theorem models_invoked_when_all_fail:
  "api_calls (fst (process_cv_to_json default_processor json_loads all_down
      ''cv.pdf'' ''Ana Cruz''))
     = [''anthropic/claude-3.5-sonnet'', ''openai/gpt-4o'', ''anthropic/claude-3-haiku'',
        ''meta-llama/llama-3.1-8b-instruct'',
        ''anthropic/claude-3.5-sonnet'', ''openai/gpt-4o'', ''anthropic/claude-3-haiku'',
        ''meta-llama/llama-3.1-8b-instruct'',
        ''anthropic/claude-3.5-sonnet'', ''openai/gpt-4o'', ''anthropic/claude-3-haiku'',
        ''meta-llama/llama-3.1-8b-instruct'',
        ''anthropic/claude-3.5-sonnet'', ''openai/gpt-4o'', ''anthropic/claude-3-haiku'',
        ''meta-llama/llama-3.1-8b-instruct'']"
  by (simp add: process_cv_to_json_def default_processor_fields single_request_all_down)

end
